theory Spec2Isabelle
  imports Main
begin

section \<open>JavaScript values and string primitives\<close>

text \<open>
  The two models of the repository (\<^verbatim>\<open>EventModel\<close> and \<^verbatim>\<open>AuthModel\<close>) are plain
  JavaScript classes over arrays of flat records. Records of the collections are HOL
  records; the session object, which the code builds by object literals, rest
  destructuring and spreads, is a finite map from property names to values.

  A string is a list of characters, and a character is a UTF-16 code unit below 256 (the
  Latin-1 range). On this range \<^verbatim>\<open>trim\<close> strips the white space and line terminators
  \<^verbatim>\<open>U+0009\<close> to \<^verbatim>\<open>U+000D\<close>, \<^verbatim>\<open>U+0020\<close> and \<^verbatim>\<open>U+00A0\<close>, and \<^verbatim>\<open>toLowerCase\<close> lowers
  \<^verbatim>\<open>A-Z\<close> and \<^verbatim>\<open>U+00C0\<close> to \<^verbatim>\<open>U+00DE\<close> except the multiplication sign \<^verbatim>\<open>U+00D7\<close>;
  the lower-case letter is 32 above the upper-case one, that is, bit 5 is set.

  A number is an integer-valued double, written as the integer it holds; an addition
  rounds as the double addition does. A thrown \<^verbatim>\<open>new Error(msg)\<close> is the value
  \<open>Inl (Error msg)\<close>; the timestamp \<^verbatim>\<open>new Date().toISOString()\<close> is a parameter of each
  operation.
\<close>

datatype jsval = JNull | JBool bool | JNum int | JStr string

type_synonym jsobj = "string \<rightharpoonup> jsval"

datatype error = Error string

definition isWhiteSpace :: "char \<Rightarrow> bool" where
  "isWhiteSpace c \<longleftrightarrow>
     c \<in> set [CHR 0x09, CHR 0x0A, CHR 0x0B, CHR 0x0C, CHR 0x0D, CHR 0x20, CHR 0xA0]"

definition trim :: "string \<Rightarrow> string" where
  "trim s = rev (dropWhile isWhiteSpace (rev (dropWhile isWhiteSpace s)))"

definition lowerChar :: "char \<Rightarrow> char" where
  "lowerChar c =
     (let n = (of_char c :: nat)
      in if (65 \<le> n \<and> n \<le> 90) \<or> (192 \<le> n \<and> n \<le> 222 \<and> n \<noteq> 215)
         then Char (digit0 c) (digit1 c) (digit2 c) (digit3 c) (digit4 c) True (digit6 c) (digit7 c)
         else c)"

definition toLowerCase :: "string \<Rightarrow> string" where
  "toLowerCase s = map lowerChar s"

text \<open>
  A property that may be missing is a \<open>string option\<close>; \<^verbatim>\<open>!x\<close> holds of a missing
  property and of the empty string.
\<close>

definition falsy :: "string option \<Rightarrow> bool" where
  "falsy x \<longleftrightarrow> (case x of None \<Rightarrow> True | Some s \<Rightarrow> s = [])"

text \<open>
  Doubles hold every integer of magnitude up to \<open>2^53\<close>; beyond, only multiples of a
  power of two. \<open>jsInc n\<close> is the double \<^verbatim>\<open>n + 1\<close> (also \<^verbatim>\<open>n++\<close>) for an integer-valued
  double \<open>n\<close>: exact from \<open>- 2^53\<close> to \<open>2^53 - 1\<close>; between \<open>2^53\<close> and \<open>2^54\<close> in magnitude
  \<open>n + 1\<close> lies half way between the doubles \<open>n\<close> and \<open>n + 2\<close> and goes to the one with the
  even significand; from \<open>2^54\<close> on it goes back to \<open>n\<close>.
\<close>

definition two53 :: int where
  "two53 = 9007199254740992"

definition jsInc :: "int \<Rightarrow> int" where
  "jsInc n =
     (if - two53 \<le> n \<and> n < two53 then n + 1
      else if \<bar>n\<bar> < 2 * two53 then (if even (n div 2) then n else n + 2)
      else n)"

text \<open>
  \<open>roundNat n\<close> is the double nearest to the natural number \<open>n\<close>, ties to the even
  significand: \<open>shiftCount n\<close> is the exponent \<open>e\<close> that leaves a significand
  \<open>n div 2^e\<close> of 53 bits.
\<close>

fun shiftCount :: "nat \<Rightarrow> nat" where
  "shiftCount n = (if n < 2 ^ 53 then 0 else Suc (shiftCount (n div 2)))"

declare shiftCount.simps [simp del]

definition roundNat :: "nat \<Rightarrow> nat" where
  "roundNat n =
     (let e = shiftCount n; q = n div 2 ^ e; r = n mod 2 ^ e
      in if 2 * r > 2 ^ e \<or> (2 * r = 2 ^ e \<and> odd q) then (q + 1) * 2 ^ e else q * 2 ^ e)"

text \<open>
  \<^verbatim>\<open>parseInt\<close> without a radix, on a string: leading white space, an optional sign, an
  optional \<^verbatim>\<open>0x\<close> prefix, then the longest run of digits, rounded to a double. The
  results \<^verbatim>\<open>NaN\<close> (no digit) and \<^verbatim>\<open>Infinity\<close> (from \<open>2^1024\<close> on) are \<open>None\<close>: they are
  strictly equal to no id. (For more than 20 decimal digits the language lets an
  implementation round the digits after the 20th to zero first; the model does not.)
\<close>

definition digitVal :: "char \<Rightarrow> nat option" where
  "digitVal c =
     map_of
       [(CHR ''0'', 0), (CHR ''1'', 1), (CHR ''2'', 2), (CHR ''3'', 3), (CHR ''4'', 4),
        (CHR ''5'', 5), (CHR ''6'', 6), (CHR ''7'', 7), (CHR ''8'', 8), (CHR ''9'', 9),
        (CHR ''a'', 10), (CHR ''b'', 11), (CHR ''c'', 12), (CHR ''d'', 13), (CHR ''e'', 14),
        (CHR ''f'', 15), (CHR ''A'', 10), (CHR ''B'', 11), (CHR ''C'', 12), (CHR ''D'', 13),
        (CHR ''E'', 14), (CHR ''F'', 15)] c"

definition isDigitIn :: "nat \<Rightarrow> char \<Rightarrow> bool" where
  "isDigitIn radix c \<longleftrightarrow> (case digitVal c of None \<Rightarrow> False | Some v \<Rightarrow> v < radix)"

definition digitsValue :: "nat \<Rightarrow> string \<Rightarrow> int" where
  "digitsValue radix ds =
     foldl (\<lambda>a c. a * int radix + int (case digitVal c of None \<Rightarrow> 0 | Some v \<Rightarrow> v)) 0 ds"

definition parseIntStr :: "string \<Rightarrow> int option" where
  "parseIntStr s =
     (let s1 = dropWhile isWhiteSpace s;
          neg = (case s1 of c # _ \<Rightarrow> c = CHR ''-'' | [] \<Rightarrow> False);
          s2 = (case s1 of c # r \<Rightarrow> if c = CHR ''-'' \<or> c = CHR ''+'' then r else s1 | [] \<Rightarrow> s1);
          hex = (case s2 of c # x # _ \<Rightarrow> c = CHR ''0'' \<and> (x = CHR ''x'' \<or> x = CHR ''X'') | _ \<Rightarrow> False);
          radix = (if hex then 16 else 10);
          s3 = (if hex then drop 2 s2 else s2);
          ds = takeWhile (isDigitIn radix) s3
      in if ds = [] then None
         else if roundNat (nat (digitsValue radix ds)) \<ge> 2 ^ 1024 then None
         else Some ((if neg then - 1 else 1) * int (roundNat (nat (digitsValue radix ds)))))"

text \<open>
  \<^verbatim>\<open>parseInt\<close> on a number parses \<^verbatim>\<open>String(n)\<close>. Below \<open>10^21\<close> in magnitude that is the
  decimal numeral of \<open>n\<close>, which reads back as \<open>n\<close>. From \<open>10^21\<close> on it is the shortest
  numeral in exponent form that rounds to \<open>n\<close>, of which \<^verbatim>\<open>parseInt\<close> reads the first digit
  only: the first digit \<open>d\<close> of \<open>n\<close>, unless the next multiple \<open>(d + 1) * 10^k\<close> of the power
  of ten rounds to \<open>n\<close> as well, which then is the shortest numeral.
\<close>

fun decExp :: "nat \<Rightarrow> nat" where
  "decExp n = (if n < 10 then 0 else Suc (decExp (n div 10)))"

declare decExp.simps [simp del]

definition shortestLeadDigit :: "nat \<Rightarrow> nat" where
  "shortestLeadDigit n =
     (let k = decExp n; d = n div 10 ^ k; e = shiftCount n; q = n div 2 ^ e;
          up = (d + 1) * 10 ^ k
      in if 2 * (up - n) < 2 ^ e \<or> (2 * (up - n) = 2 ^ e \<and> even q)
         then (if d = 9 then 1 else d + 1) else d)"

fun parseInt :: "jsval \<Rightarrow> int option" where
  "parseInt (JNum n) =
     (if \<bar>n\<bar> < 10 ^ 21 then Some n
      else Some ((if n < 0 then - 1 else 1) * int (shortestLeadDigit (nat \<bar>n\<bar>))))"
| "parseInt (JStr s) = parseIntStr s"
| "parseInt JNull = None"
| "parseInt (JBool b) = None"

fun findIndex :: "('a \<Rightarrow> bool) \<Rightarrow> 'a list \<Rightarrow> nat option" where
  "findIndex P [] = None"
| "findIndex P (x # xs) = (if P x then Some 0 else map_option Suc (findIndex P xs))"

text \<open>
  A key of \<^verbatim>\<open>localStorage\<close> is absent (\<open>None\<close>) or holds a string: \<open>Json v\<close> is the
  string \<^verbatim>\<open>JSON.stringify(v)\<close> of a collection or object \<open>v\<close>, which is never empty
  and which \<^verbatim>\<open>JSON.parse\<close> reads back as \<open>v\<close>; \<open>Raw s\<close> is any other string \<open>s\<close>,
  on which \<^verbatim>\<open>JSON.parse\<close> throws. Writes to the storage are taken to succeed.
\<close>

datatype 'a blob = Json 'a | Raw string

fun truthyBlob :: "'a blob \<Rightarrow> bool" where
  "truthyBlob (Json v) = True"
| "truthyBlob (Raw s) = (s \<noteq> [])"

fun JSON_parse :: "'a blob \<Rightarrow> 'a option" where
  "JSON_parse (Json v) = Some v"
| "JSON_parse (Raw s) = None"

section \<open>EventModel\<close>

record event =
  e_id :: int
  e_title :: string
  e_description :: string
  e_date :: string
  e_time :: string
  e_location :: string
  e_createdBy :: string
  e_createdAt :: string
  e_updatedAt :: "string option"

record event_data =
  d_title :: "string option"
  d_description :: "string option"
  d_date :: "string option"
  d_time :: "string option"
  d_location :: "string option"
  d_createdBy :: "string option"

record event_model =
  events :: "event list"
  nextId :: int
  ls_events :: "event list blob option"

definition loadEvents :: "event list blob option \<Rightarrow> event list" where
  "loadEvents saved =
     (case saved of
        None \<Rightarrow> []
      | Some b \<Rightarrow>
          if truthyBlob b then (case JSON_parse b of Some evs \<Rightarrow> evs | None \<Rightarrow> [])
          else [])"

definition saveEvents :: "event_model \<Rightarrow> event_model" where
  "saveEvents m = m\<lparr>ls_events := Some (Json (events m))\<rparr>"

definition getNextId :: "event list \<Rightarrow> int" where
  "getNextId evs = (case map e_id evs of [] \<Rightarrow> 1 | i # is \<Rightarrow> jsInc (fold max is i))"

definition EventModel :: "event list blob option \<Rightarrow> event_model" where
  "EventModel saved =
     \<lparr>events = loadEvents saved, nextId = getNextId (loadEvents saved), ls_events = saved\<rparr>"

definition missingRequired :: "event_data \<Rightarrow> bool" where
  "missingRequired d \<longleftrightarrow>
     falsy (d_title d) \<or> falsy (d_description d) \<or> falsy (d_date d) \<or>
     falsy (d_time d) \<or> falsy (d_location d)"

definition addEvent :: "string \<Rightarrow> event_data \<Rightarrow> event_model \<Rightarrow> (error + event) \<times> event_model" where
  "addEvent now d m =
     (if missingRequired d then (Inl (Error ''All fields are required''), m)
      else
        let ev = \<lparr>e_id = nextId m,
                  e_title = trim (the (d_title d)),
                  e_description = trim (the (d_description d)),
                  e_date = the (d_date d),
                  e_time = the (d_time d),
                  e_location = trim (the (d_location d)),
                  e_createdBy = (if falsy (d_createdBy d) then ''Unknown'' else the (d_createdBy d)),
                  e_createdAt = now,
                  e_updatedAt = None\<rparr>
        in (Inr ev, saveEvents (m\<lparr>events := events m @ [ev], nextId := jsInc (nextId m)\<rparr>)))"

definition updateEvent ::
  "string \<Rightarrow> jsval \<Rightarrow> event_data \<Rightarrow> event_model \<Rightarrow> (error + event option) \<times> event_model" where
  "updateEvent now i d m =
     (case findIndex (\<lambda>e. Some (e_id e) = parseInt i) (events m) of
        None \<Rightarrow> (Inr None, m)
      | Some index \<Rightarrow>
          if missingRequired d then (Inl (Error ''All fields are required''), m)
          else
            let ev = (events m ! index)
                       \<lparr>e_title := trim (the (d_title d)),
                        e_description := trim (the (d_description d)),
                        e_date := the (d_date d),
                        e_time := the (d_time d),
                        e_location := trim (the (d_location d)),
                        e_updatedAt := Some now\<rparr>
            in (Inr (Some ev), saveEvents (m\<lparr>events := (events m)[index := ev]\<rparr>)))"

definition deleteEvent :: "jsval \<Rightarrow> event_model \<Rightarrow> event option \<times> event_model" where
  "deleteEvent i m =
     (case findIndex (\<lambda>e. Some (e_id e) = parseInt i) (events m) of
        None \<Rightarrow> (None, m)
      | Some index \<Rightarrow>
          (Some (events m ! index),
           saveEvents (m\<lparr>events := take index (events m) @ drop (Suc index) (events m)\<rparr>)))"

definition getEventById :: "jsval \<Rightarrow> event_model \<Rightarrow> event option" where
  "getEventById i m = find (\<lambda>e. Some (e_id e) = parseInt i) (events m)"

section \<open>AuthModel\<close>

text \<open>
  An account of the collection. The seeded accounts carry no \<^verbatim>\<open>isActive\<close>,
  \<^verbatim>\<open>lastLogin\<close> or \<^verbatim>\<open>updatedAt\<close> property, so these three may be absent (\<open>None\<close>);
  \<^verbatim>\<open>lastLogin\<close> may also be present and \<^verbatim>\<open>null\<close> (\<open>Some None\<close>), as registration
  sets it.
\<close>

record account =
  u_id :: int
  u_username :: string
  u_password :: string
  u_role :: string
  u_email :: string
  u_fullName :: string
  u_phone :: string
  u_createdAt :: string
  u_isActive :: "bool option"
  u_lastLogin :: "string option option"
  u_updatedAt :: "string option"

record user_data =
  r_username :: "string option"
  r_password :: "string option"
  r_email :: "string option"
  r_fullName :: "string option"
  r_phone :: "string option"

record update_data =
  p_fullName :: "string option"
  p_email :: "string option"
  p_phone :: "string option"

record auth_model =
  users :: "account list"
  currentUser :: "jsobj option"
  nextUserId :: int
  ls_users :: "account list blob option"
  ls_currentUser :: "jsobj blob option"

text \<open>The own properties of an account object, and \<^verbatim>\<open>const {password, ...rest} = user\<close>.\<close>

definition accountObj :: "account \<Rightarrow> jsobj" where
  "accountObj u =
     map_of
       ([(''id'', JNum (u_id u)),
         (''username'', JStr (u_username u)),
         (''password'', JStr (u_password u)),
         (''role'', JStr (u_role u)),
         (''email'', JStr (u_email u)),
         (''fullName'', JStr (u_fullName u)),
         (''phone'', JStr (u_phone u)),
         (''createdAt'', JStr (u_createdAt u))]
        @ (case u_isActive u of None \<Rightarrow> [] | Some b \<Rightarrow> [(''isActive'', JBool b)])
        @ (case u_lastLogin u of
             None \<Rightarrow> []
           | Some None \<Rightarrow> [(''lastLogin'', JNull)]
           | Some (Some t) \<Rightarrow> [(''lastLogin'', JStr t)])
        @ (case u_updatedAt u of None \<Rightarrow> [] | Some t \<Rightarrow> [(''updatedAt'', JStr t)]))"

definition withoutPassword :: "jsobj \<Rightarrow> jsobj" where
  "withoutPassword obj = obj(''password'' := None)"

definition defaultUsers :: "string \<Rightarrow> string \<Rightarrow> account list" where
  "defaultUsers t1 t2 =
     [\<lparr>u_id = 1, u_username = ''admin'', u_password = ''password'', u_role = ''admin'',
       u_email = ''admin@eventmanager.com'', u_fullName = ''System Administrator'',
       u_phone = ''+1-555-0100'', u_createdAt = t1,
       u_isActive = None, u_lastLogin = None, u_updatedAt = None\<rparr>,
      \<lparr>u_id = 2, u_username = ''user'', u_password = ''123456'', u_role = ''user'',
       u_email = ''user@eventmanager.com'', u_fullName = ''Demo User'',
       u_phone = ''+1-555-0101'', u_createdAt = t2,
       u_isActive = None, u_lastLogin = None, u_updatedAt = None\<rparr>]"

text \<open>
  \<^verbatim>\<open>loadUsers\<close> returns the collection and the \<^verbatim>\<open>users\<close> key of the storage after
  the call (the seeding branch writes it).
\<close>

definition loadUsers ::
  "string \<Rightarrow> string \<Rightarrow> account list blob option \<Rightarrow> account list \<times> account list blob option" where
  "loadUsers t1 t2 saved =
     (case saved of
        None \<Rightarrow> (defaultUsers t1 t2, Some (Json (defaultUsers t1 t2)))
      | Some b \<Rightarrow>
          if truthyBlob b
          then (case JSON_parse b of Some us \<Rightarrow> (us, saved) | None \<Rightarrow> ([], saved))
          else (defaultUsers t1 t2, Some (Json (defaultUsers t1 t2))))"

definition saveUsers :: "auth_model \<Rightarrow> auth_model" where
  "saveUsers m = m\<lparr>ls_users := Some (Json (users m))\<rparr>"

definition getNextUserId :: "account list \<Rightarrow> int" where
  "getNextUserId us = (case map u_id us of [] \<Rightarrow> 1 | i # is \<Rightarrow> jsInc (fold max is i))"

definition loadCurrentUser :: "jsobj blob option \<Rightarrow> jsobj option" where
  "loadCurrentUser saved =
     (case saved of
        None \<Rightarrow> None
      | Some b \<Rightarrow> if truthyBlob b then JSON_parse b else None)"

definition saveCurrentUser :: "jsobj \<Rightarrow> auth_model \<Rightarrow> auth_model" where
  "saveCurrentUser user m = m\<lparr>ls_currentUser := Some (Json user), currentUser := Some user\<rparr>"

definition AuthModel ::
  "string \<Rightarrow> string \<Rightarrow> account list blob option \<Rightarrow> jsobj blob option \<Rightarrow> auth_model" where
  "AuthModel t1 t2 savedUsers savedCurrent =
     (let (us, ls) = loadUsers t1 t2 savedUsers
      in \<lparr>users = us, currentUser = loadCurrentUser savedCurrent,
          nextUserId = getNextUserId us, ls_users = ls, ls_currentUser = savedCurrent\<rparr>)"

text \<open>
  \<^verbatim>\<open>authenticate\<close>: \<^verbatim>\<open>find\<close> returns a reference into the array, so stamping
  \<^verbatim>\<open>user.lastLogin\<close> updates the collection at the index of the first match. The two
  timestamps are the two calls of \<^verbatim>\<open>new Date()\<close>. The result \<^verbatim>\<open>null\<close> is \<open>Inr None\<close>.
\<close>

definition credentialsMatch :: "string \<Rightarrow> string \<Rightarrow> account \<Rightarrow> bool" where
  "credentialsMatch username password u \<longleftrightarrow>
     toLowerCase (u_username u) = toLowerCase (trim username) \<and>
     u_password u = password \<and>
     u_isActive u \<noteq> Some False"

definition authenticate ::
  "string \<Rightarrow> string \<Rightarrow> string \<Rightarrow> string \<Rightarrow> auth_model \<Rightarrow> (error + jsobj option) \<times> auth_model" where
  "authenticate t1 t2 username password m =
     (if username = [] \<or> password = []
      then (Inl (Error ''Username and password are required''), m)
      else
        case findIndex (credentialsMatch username password) (users m) of
          None \<Rightarrow> (Inr None, m)
        | Some i \<Rightarrow>
            let user = (users m ! i)\<lparr>u_lastLogin := Some (Some t1)\<rparr>;
                m1 = saveUsers (m\<lparr>users := (users m)[i := user]\<rparr>);
                sessionUser =
                  [''id'' \<mapsto> JNum (u_id user),
                   ''username'' \<mapsto> JStr (u_username user),
                   ''role'' \<mapsto> JStr (u_role user),
                   ''email'' \<mapsto> JStr (u_email user),
                   ''fullName'' \<mapsto> JStr (u_fullName user),
                   ''phone'' \<mapsto> JStr (u_phone user),
                   ''loginTime'' \<mapsto> JStr t2,
                   ''lastLogin'' \<mapsto> JStr t1]
            in (Inr (Some sessionUser), saveCurrentUser sessionUser m1))"

text \<open>The regular expressions of the validators, as predicates on the string.\<close>

definition emailPart :: "string \<Rightarrow> bool" where
  "emailPart s \<longleftrightarrow> s \<noteq> [] \<and> list_all (\<lambda>c. \<not> isWhiteSpace c \<and> c \<noteq> CHR ''@'') s"

definition validateEmailFormat :: "string \<Rightarrow> bool" where
  "validateEmailFormat e \<longleftrightarrow>
     list_ex (\<lambda>i. list_ex (\<lambda>j.
         i < j \<and> e ! i = CHR ''@'' \<and> e ! j = CHR ''.'' \<and>
         emailPart (take i e) \<and>
         emailPart (take (j - Suc i) (drop (Suc i) e)) \<and>
         emailPart (drop (Suc j) e))
       [0 ..< length e]) [0 ..< length e]"

definition validatePhoneFormat :: "string \<Rightarrow> bool" where
  "validatePhoneFormat phone \<longleftrightarrow>
     (let p = filter (\<lambda>c. \<not> (isWhiteSpace c \<or> c \<in> set ''-()'')) phone;
          q = (case p of c # r \<Rightarrow> if c = CHR ''+'' then r else p | [] \<Rightarrow> p)
      in case q of
           [] \<Rightarrow> False
         | c # r \<Rightarrow> c \<in> set ''123456789'' \<and> length r \<le> 15 \<and> list_all (\<lambda>x. x \<in> set ''0123456789'') r)"

definition validUsernameChars :: "string \<Rightarrow> bool" where
  "validUsernameChars s \<longleftrightarrow>
     s \<noteq> [] \<and>
     list_all (\<lambda>c. c \<in> set ''abcdefghijklmnopqrstuvwxyzABCDEFGHIJKLMNOPQRSTUVWXYZ0123456789_'') s"

definition usernameTaken :: "account list \<Rightarrow> string \<Rightarrow> bool" where
  "usernameTaken us username \<longleftrightarrow>
     find (\<lambda>u. toLowerCase (u_username u) = toLowerCase username) us \<noteq> None"

definition emailTaken :: "account list \<Rightarrow> string \<Rightarrow> bool" where
  "emailTaken us email \<longleftrightarrow>
     find (\<lambda>u. toLowerCase (u_email u) = toLowerCase email) us \<noteq> None"

definition registerUser :: "string \<Rightarrow> user_data \<Rightarrow> auth_model \<Rightarrow> (error + jsobj) \<times> auth_model" where
  "registerUser now d m =
     (if falsy (r_username d) \<or> falsy (r_password d) \<or> falsy (r_email d) \<or> falsy (r_fullName d)
      then (Inl (Error ''Username, password, email, and full name are required''), m)
      else if length (the (r_username d)) < 3
      then (Inl (Error ''Username must be at least 3 characters long''), m)
      else if \<not> validUsernameChars (the (r_username d))
      then (Inl (Error ''Username can only contain letters, numbers, and underscores''), m)
      else if usernameTaken (users m) (the (r_username d))
      then (Inl (Error ''Username already exists''), m)
      else if emailTaken (users m) (the (r_email d))
      then (Inl (Error ''Email address already registered''), m)
      else if \<not> validateEmailFormat (the (r_email d))
      then (Inl (Error ''Please enter a valid email address''), m)
      else if length (the (r_password d)) < 6
      then (Inl (Error ''Password must be at least 6 characters long''), m)
      else if \<not> falsy (r_phone d) \<and> \<not> validatePhoneFormat (the (r_phone d))
      then (Inl (Error ''Please enter a valid phone number''), m)
      else
        let newUser =
              \<lparr>u_id = nextUserId m,
               u_username = trim (the (r_username d)),
               u_password = the (r_password d),
               u_role = ''user'',
               u_email = toLowerCase (trim (the (r_email d))),
               u_fullName = trim (the (r_fullName d)),
               u_phone = (if falsy (r_phone d) then [] else trim (the (r_phone d))),
               u_createdAt = now,
               u_isActive = Some True,
               u_lastLogin = Some None,
               u_updatedAt = None\<rparr>
        in (Inr (withoutPassword (accountObj newUser)),
            saveUsers (m\<lparr>users := users m @ [newUser], nextUserId := jsInc (nextUserId m)\<rparr>)))"

text \<open>
  \<^verbatim>\<open>updateUserProfile\<close>: the lookup compares against \<^verbatim>\<open>parseInt(userId)\<close>, the
  e-mail check and the session check against \<^verbatim>\<open>userId\<close> itself, with strict
  (in)equality. A patch property is copied when it is not \<^verbatim>\<open>undefined\<close>.
\<close>

definition applyPatch :: "update_data \<Rightarrow> account \<Rightarrow> account" where
  "applyPatch d u =
     (let u1 = (case p_fullName d of None \<Rightarrow> u | Some v \<Rightarrow> u\<lparr>u_fullName := trim v\<rparr>);
          u2 = (case p_email d of None \<Rightarrow> u1 | Some v \<Rightarrow> u1\<lparr>u_email := trim v\<rparr>);
          u3 = (case p_phone d of None \<Rightarrow> u2 | Some v \<Rightarrow> u2\<lparr>u_phone := trim v\<rparr>)
      in u3)"

definition updateUserProfile ::
  "string \<Rightarrow> jsval \<Rightarrow> update_data \<Rightarrow> auth_model \<Rightarrow> (error + jsobj) \<times> auth_model" where
  "updateUserProfile now userId d m =
     (case findIndex (\<lambda>u. Some (u_id u) = parseInt userId) (users m) of
        None \<Rightarrow> (Inl (Error ''User not found''), m)
      | Some userIndex \<Rightarrow>
          let user = users m ! userIndex;
              emailChanged = (\<not> falsy (p_email d) \<and> the (p_email d) \<noteq> u_email user)
          in
          if emailChanged \<and>
             find (\<lambda>u. toLowerCase (u_email u) = toLowerCase (the (p_email d)) \<and> JNum (u_id u) \<noteq> userId)
               (users m) \<noteq> None
          then (Inl (Error ''Email address already in use''), m)
          else if emailChanged \<and> \<not> validateEmailFormat (the (p_email d))
          then (Inl (Error ''Please enter a valid email address''), m)
          else if \<not> falsy (p_phone d) \<and> \<not> validatePhoneFormat (the (p_phone d))
          then (Inl (Error ''Please enter a valid phone number''), m)
          else
            let user' = (applyPatch d user)\<lparr>u_updatedAt := Some now\<rparr>;
                m1 = saveUsers (m\<lparr>users := (users m)[userIndex := user']\<rparr>);
                userProfile = withoutPassword (accountObj user');
                m2 = (case currentUser m1 of
                        None \<Rightarrow> m1
                      | Some cu \<Rightarrow>
                          if cu ''id'' = Some userId then saveCurrentUser (cu ++ userProfile) m1
                          else m1)
            in (Inr userProfile, m2))"

text \<open>\<^verbatim>\<open>changePassword\<close> returns \<^verbatim>\<open>false\<close> when the session's account is not found.\<close>

definition changePassword :: "string \<Rightarrow> string \<Rightarrow> auth_model \<Rightarrow> (error + bool) \<times> auth_model" where
  "changePassword currentPassword newPassword m =
     (case currentUser m of
        None \<Rightarrow> (Inl (Error ''User not authenticated''), m)
      | Some cu \<Rightarrow>
          (case findIndex (\<lambda>u. Some (JStr (u_username u)) = cu ''username'') (users m) of
             None \<Rightarrow> (Inr False, m)
           | Some userIndex \<Rightarrow>
               if u_password (users m ! userIndex) \<noteq> currentPassword
               then (Inl (Error ''Current password is incorrect''), m)
               else if newPassword = [] \<or> length newPassword < 6
               then (Inl (Error ''New password must be at least 6 characters long''), m)
               else
                 (Inr True,
                  m\<lparr>users := (users m)[userIndex := (users m ! userIndex)\<lparr>u_password := newPassword\<rparr>]\<rparr>)))"

section \<open>Notions used to state the properties\<close>

text \<open>
  A history of an event store: creations, deletions, and reconstructions of the store
  from what it persisted. \<open>run\<close> returns the final store and the events created on the
  way, in order.
\<close>

datatype op = Create string event_data | Delete jsval | Reconstruct

fun step :: "op \<Rightarrow> event_model \<Rightarrow> event_model \<times> event list" where
  "step (Create now d) m =
     (case addEvent now d m of (Inl err, m') \<Rightarrow> (m', []) | (Inr ev, m') \<Rightarrow> (m', [ev]))"
| "step (Delete i) m = (snd (deleteEvent i m), [])"
| "step Reconstruct m = (EventModel (ls_events m), [])"

fun run :: "op list \<Rightarrow> event_model \<Rightarrow> event_model \<times> event list" where
  "run [] m = (m, [])"
| "run (x # xs) m =
     (let (m1, c1) = step x m; (m2, c2) = run xs m1 in (m2, c1 @ c2))"

definition idsBelow :: "event list \<Rightarrow> int \<Rightarrow> bool" where
  "idsBelow evs n \<longleftrightarrow> list_all (\<lambda>e. e_id e < n) evs"

text \<open>The safe integers of the language: those of magnitude below \<open>2^53\<close>.\<close>

definition isSafeInteger :: "int \<Rightarrow> bool" where
  "isSafeInteger n \<longleftrightarrow> - two53 < n \<and> n < two53"

definition storeInv :: "event_model \<Rightarrow> bool" where
  "storeInv m \<longleftrightarrow>
     distinct (map e_id (events m)) \<and> idsBelow (events m) (nextId m) \<and>
     loadEvents (ls_events m) = events m \<and>
     list_all (\<lambda>e. - two53 \<le> e_id e) (events m) \<and> - two53 \<le> nextId m"

text \<open>
  The three reasons for which \<^verbatim>\<open>authenticate\<close> finds no account: no account has the
  user name, some have it but none with this password, or every account with this user
  name and password is inactive.
\<close>

datatype cause = UsernameAbsent | WrongPassword | AccountInactive

definition usernameMatches :: "string \<Rightarrow> account \<Rightarrow> bool" where
  "usernameMatches username u \<longleftrightarrow> toLowerCase (u_username u) = toLowerCase (trim username)"

fun failsBy :: "cause \<Rightarrow> account list \<Rightarrow> string \<Rightarrow> string \<Rightarrow> bool" where
  "failsBy UsernameAbsent us username password \<longleftrightarrow>
     \<not> list_ex (usernameMatches username) us"
| "failsBy WrongPassword us username password \<longleftrightarrow>
     list_ex (usernameMatches username) us \<and>
     \<not> list_ex (\<lambda>u. usernameMatches username u \<and> u_password u = password) us"
| "failsBy AccountInactive us username password \<longleftrightarrow>
     list_ex (\<lambda>u. usernameMatches username u \<and> u_password u = password) us \<and>
     list_all (\<lambda>u. usernameMatches username u \<and> u_password u = password \<longrightarrow>
                 u_isActive u = Some False) us"

text \<open>The index of the account that \<^verbatim>\<open>changePassword\<close> takes for the session's.\<close>

definition sessionAccountIndex :: "auth_model \<Rightarrow> nat option" where
  "sessionAccountIndex m =
     (case currentUser m of
        None \<Rightarrow> None
      | Some cu \<Rightarrow> findIndex (\<lambda>u. Some (JStr (u_username u)) = cu ''username'') (users m))"

text \<open>The checks that \<^verbatim>\<open>registerUser\<close> makes before it looks for a collision.\<close>

definition passesEarlierChecks :: "user_data \<Rightarrow> bool" where
  "passesEarlierChecks d \<longleftrightarrow>
     \<not> falsy (r_username d) \<and> \<not> falsy (r_password d) \<and> \<not> falsy (r_email d) \<and>
     \<not> falsy (r_fullName d) \<and> 3 \<le> length (the (r_username d)) \<and>
     validUsernameChars (the (r_username d))"

section \<open>Lemmas on the array primitives\<close>

lemma findIndex_Some:
  "findIndex P xs = Some i \<Longrightarrow> i < length xs \<and> P (xs ! i) \<and> (\<forall>j<i. \<not> P (xs ! j))"
proof (induction xs arbitrary: i)
  case Nil
  then show ?case by simp
next
  case (Cons x xs)
  show ?case
  proof (cases "P x")
    case True
    with Cons.prems show ?thesis by simp
  next
    case False
    with Cons.prems obtain k where k: "findIndex P xs = Some k" "i = Suc k"
      by auto
    from Cons.IH [OF k(1)] False k(2) show ?thesis
      by (auto simp: less_Suc_eq_0_disj)
  qed
qed

lemma findIndex_None: "findIndex P xs = None \<longleftrightarrow> (\<forall>x\<in>set xs. \<not> P x)"
  by (induction xs) auto

lemma findIndex_ex: "x \<in> set xs \<Longrightarrow> P x \<Longrightarrow> \<exists>i. findIndex P xs = Some i"
  using findIndex_None [of P xs] by (cases "findIndex P xs") auto

lemma fold_max_ge: "(a::int) \<le> fold max xs a \<and> (\<forall>x\<in>set xs. x \<le> fold max xs a)"
proof (induction xs arbitrary: a)
  case Nil
  show ?case by simp
next
  case (Cons x xs)
  from Cons [of "max x a"] show ?case by auto
qed

lemma distinct_map_remove:
  assumes "distinct (map f xs)"
  shows "distinct (map f (take i xs @ drop (Suc i) xs))"
proof -
  have "distinct (take i (map f xs) @ drop (Suc i) (map f xs))"
    using assms by (simp add: set_take_disj_set_drop_if_distinct)
  then show ?thesis by (simp add: take_map drop_map)
qed

section \<open>The string and number primitives at the edges\<close>

lemma toLowerCase_latin1:
  "toLowerCase [CHR 0xC9, CHR ''A'', CHR 0xD7, CHR 0xDF, CHR ''z''] =
     [CHR 0xE9, CHR ''a'', CHR 0xD7, CHR 0xDF, CHR ''z'']"
  by (simp add: toLowerCase_def lowerChar_def)

lemma trim_no_break_space: "trim [CHR 0xA0, CHR ''T'', CHR 0x09, CHR 0xA0] = ''T''"
  by (simp add: trim_def isWhiteSpace_def)

lemma jsInc_at_two53: "jsInc 9007199254740991 = 9007199254740992"
  "jsInc 9007199254740992 = 9007199254740992" "jsInc 9007199254740994 = 9007199254740996"
  by (simp_all add: jsInc_def two53_def)

lemma parseInt_rounds:
  "parseInt (JStr ''9007199254740993'') = Some 9007199254740992"
  "parseInt (JStr '' -12px'') = Some (- 12)"
  "parseInt (JStr ''0x1F'') = Some 31"
  "parseInt (JStr ''px'') = None"
  by (simp_all add: parseIntStr_def isWhiteSpace_def isDigitIn_def digitVal_def digitsValue_def
      roundNat_def shiftCount.simps Let_def)

lemma parseInt_of_large_number:
  "parseInt (JNum 1000000000000000000000) = Some 1"
  "parseInt (JNum 99999999999999991611392) = Some 1"
  "parseInt (JNum (- 2000000000000000000000)) = Some (- 2)"
  "parseInt (JNum 18446744073709551616) = Some 18446744073709551616"
  by (simp_all add: shortestLeadDigit_def shiftCount.simps decExp.simps Let_def)

section \<open>EventModel: creation and validation\<close>

lemma missing_required_rejected:
  assumes "missingRequired d"
  shows "addEvent now d m = (Inl (Error ''All fields are required''), m)"
    and "findIndex (\<lambda>e. Some (e_id e) = parseInt i) (events m) \<noteq> None \<Longrightarrow>
         updateEvent now i d m = (Inl (Error ''All fields are required''), m)"
  using assms by (auto simp: addEvent_def updateEvent_def)

text \<open>
  C10. For every event input whose five required fields are present and non-empty, when
  \<^verbatim>\<open>createdBy\<close> is absent or empty \<^verbatim>\<open>addEvent\<close> succeeds: it returns and appends (and
  persists) an event whose \<^verbatim>\<open>createdBy\<close> is the literal \<^verbatim>\<open>'Unknown'\<close>.
\<close>

theorem addEvent_missing_creator_unknown:
  assumes "\<not> missingRequired d" and "falsy (d_createdBy d)"
  shows "\<exists>ev. addEvent now d m =
           (Inr ev, m\<lparr>events := events m @ [ev], nextId := jsInc (nextId m),
                       ls_events := Some (Json (events m @ [ev]))\<rparr>) \<and>
         e_createdBy ev = ''Unknown''"
  using assms by (simp add: addEvent_def saveEvents_def Let_def)

theorem addEvent_missing_creator_unknown_witness:
  "\<not> missingRequired \<lparr>d_title = Some ''T'', d_description = Some ''D'', d_date = Some ''2025-01-01'',
        d_time = Some ''10:00'', d_location = Some ''L'', d_createdBy = Some []\<rparr> \<and>
   falsy (d_createdBy \<lparr>d_title = Some ''T'', d_description = Some ''D'', d_date = Some ''2025-01-01'',
        d_time = Some ''10:00'', d_location = Some ''L'', d_createdBy = Some []\<rparr>) \<and>
   e_createdBy (projr (fst (addEvent ''now''
      \<lparr>d_title = Some ''T'', d_description = Some ''D'', d_date = Some ''2025-01-01'',
        d_time = Some ''10:00'', d_location = Some ''L'', d_createdBy = Some []\<rparr>
      (EventModel None)))) = ''Unknown''"
proof -
  let ?d = "\<lparr>d_title = Some ''T'', d_description = Some ''D'', d_date = Some ''2025-01-01'',
        d_time = Some ''10:00'', d_location = Some ''L'', d_createdBy = Some []\<rparr>"
  have h1: "\<not> missingRequired ?d" by (simp add: missingRequired_def falsy_def)
  have h2: "falsy (d_createdBy ?d)" by (simp add: falsy_def)
  from addEvent_missing_creator_unknown [OF h1 h2, of "''now''" "EventModel None"] h1 h2
  show ?thesis by auto
qed

text \<open>
  C1. The required fields are tested before they are trimmed: a title of three blanks
  passes the test \<^verbatim>\<open>!eventData.title\<close>, and the event is created and stored with the
  empty title that \<^verbatim>\<open>trim\<close> leaves.
\<close>

theorem addEvent_whitespace_title_stored_empty:
  "fst (addEvent ''2025-01-01T09:00:00.000Z''
     \<lparr>d_title = Some ''   '', d_description = Some ''D'', d_date = Some ''2025-01-01'',
       d_time = Some ''10:00'', d_location = Some ''L'', d_createdBy = Some ''alice123''\<rparr>
     (EventModel None)) =
   Inr \<lparr>e_id = 1, e_title = [], e_description = ''D'', e_date = ''2025-01-01'',
        e_time = ''10:00'', e_location = ''L'', e_createdBy = ''alice123'',
        e_createdAt = ''2025-01-01T09:00:00.000Z'', e_updatedAt = None\<rparr>"
  by (simp add: addEvent_def missingRequired_def falsy_def EventModel_def loadEvents_def
      getNextId_def trim_def isWhiteSpace_def Let_def)

section \<open>EventModel: update\<close>

text \<open>
  C6. For every existing event (addressed by an id that \<^verbatim>\<open>parseInt\<close> reads as its
  number) and every input that passes the validation, \<^verbatim>\<open>updateEvent\<close> succeeds; the
  updated record keeps \<^verbatim>\<open>id\<close>, \<^verbatim>\<open>createdBy\<close> and \<^verbatim>\<open>createdAt\<close>, its \<^verbatim>\<open>updatedAt\<close> is
  the time of the update, and every other position of the collection is unchanged.
\<close>

theorem updateEvent_preserves_identity:
  assumes "parseInt i = Some n" and "n \<in> e_id ` set (events m)" and "\<not> missingRequired d"
  shows "\<exists>index ev m'.
           updateEvent now i d m = (Inr (Some ev), m') \<and>
           index < length (events m) \<and>
           e_id (events m ! index) = n \<and>
           e_id ev = e_id (events m ! index) \<and>
           e_createdBy ev = e_createdBy (events m ! index) \<and>
           e_createdAt ev = e_createdAt (events m ! index) \<and>
           e_updatedAt ev = Some now \<and>
           events m' = (events m)[index := ev] \<and>
           length (events m') = length (events m) \<and>
           (\<forall>j<length (events m). j \<noteq> index \<longrightarrow> events m' ! j = events m ! j) \<and>
           nextId m' = nextId m"
proof -
  from assms(2) obtain e where e: "e \<in> set (events m)" "e_id e = n"
    by auto
  with assms(1) have "Some (e_id e) = parseInt i"
    by simp
  with e(1) obtain index where idx: "findIndex (\<lambda>e. Some (e_id e) = parseInt i) (events m) = Some index"
    using findIndex_ex [of e "events m" "\<lambda>e. Some (e_id e) = parseInt i"] by blast
  from findIndex_Some [OF idx] assms(1)
  have bound: "index < length (events m)" and hit: "e_id (events m ! index) = n"
    by auto
  let ?ev = "(events m ! index)
               \<lparr>e_title := trim (the (d_title d)),
                e_description := trim (the (d_description d)),
                e_date := the (d_date d),
                e_time := the (d_time d),
                e_location := trim (the (d_location d)),
                e_updatedAt := Some now\<rparr>"
  have run: "updateEvent now i d m =
               (Inr (Some ?ev), saveEvents (m\<lparr>events := (events m)[index := ?ev]\<rparr>))"
    using idx assms(3) by (simp add: updateEvent_def Let_def)
  show ?thesis
    apply (rule exI [where x = index])
    apply (rule exI [where x = ?ev])
    apply (rule exI [where x = "saveEvents (m\<lparr>events := (events m)[index := ?ev]\<rparr>)"])
    using run bound hit by (simp add: saveEvents_def)
qed

theorem updateEvent_preserves_identity_witness:
  "parseInt (JStr ''7'') = Some 7 \<and>
   7 \<in> e_id ` set (events
     \<lparr>events = [\<lparr>e_id = 7, e_title = ''T'', e_description = ''D'', e_date = ''2025-01-01'',
                  e_time = ''10:00'', e_location = ''L'', e_createdBy = ''alice123'',
                  e_createdAt = ''t0'', e_updatedAt = None\<rparr>],
      nextId = 8, ls_events = None\<rparr>) \<and>
   \<not> missingRequired \<lparr>d_title = Some ''T2'', d_description = Some ''D2'', d_date = Some ''2025-02-02'',
        d_time = Some ''11:00'', d_location = Some ''L2'', d_createdBy = None\<rparr> \<and>
   (\<exists>ev m'. updateEvent ''t1'' (JStr ''7'')
        \<lparr>d_title = Some ''T2'', d_description = Some ''D2'', d_date = Some ''2025-02-02'',
          d_time = Some ''11:00'', d_location = Some ''L2'', d_createdBy = None\<rparr>
        \<lparr>events = [\<lparr>e_id = 7, e_title = ''T'', e_description = ''D'', e_date = ''2025-01-01'',
                  e_time = ''10:00'', e_location = ''L'', e_createdBy = ''alice123'',
                  e_createdAt = ''t0'', e_updatedAt = None\<rparr>],
          nextId = 8, ls_events = None\<rparr> = (Inr (Some ev), m') \<and>
      e_updatedAt ev = Some ''t1'')"
proof -
  let ?m = "\<lparr>events = [\<lparr>e_id = 7, e_title = ''T'', e_description = ''D'', e_date = ''2025-01-01'',
                  e_time = ''10:00'', e_location = ''L'', e_createdBy = ''alice123'',
                  e_createdAt = ''t0'', e_updatedAt = None\<rparr>],
      nextId = 8, ls_events = None\<rparr>"
  let ?d = "\<lparr>d_title = Some ''T2'', d_description = Some ''D2'', d_date = Some ''2025-02-02'',
        d_time = Some ''11:00'', d_location = Some ''L2'', d_createdBy = None\<rparr>"
  have h1: "parseInt (JStr ''7'') = Some 7"
    by (simp add: parseIntStr_def isWhiteSpace_def isDigitIn_def digitVal_def digitsValue_def
        roundNat_def shiftCount.simps Let_def)
  have h2: "7 \<in> e_id ` set (events ?m)"
    by simp
  have h3: "\<not> missingRequired ?d"
    by (simp add: missingRequired_def falsy_def)
  from updateEvent_preserves_identity [OF h1 h2 h3, of "''t1''"]
  obtain index ev m' where "updateEvent ''t1'' (JStr ''7'') ?d ?m = (Inr (Some ev), m')"
    and "e_updatedAt ev = Some ''t1''"
    by auto
  then have "\<exists>ev m'. updateEvent ''t1'' (JStr ''7'') ?d ?m = (Inr (Some ev), m') \<and>
      e_updatedAt ev = Some ''t1''"
    by (intro exI conjI)
  with h1 h2 h3 show ?thesis
    by (intro conjI)
qed

section \<open>EventModel: identifiers\<close>

lemma jsInc_exact: "- two53 \<le> n \<Longrightarrow> n < two53 \<Longrightarrow> jsInc n = n + 1"
  by (simp add: jsInc_def)

lemma fold_max_mem: "fold max xs (a::int) \<in> set (a # xs)"
proof (induction xs arbitrary: a)
  case Nil
  show ?case by simp
next
  case (Cons x xs)
  from Cons [of "max x a"] show ?case by (auto simp: max_def split: if_splits)
qed

lemma getNextId_Max:
  assumes "list_all (\<lambda>e. isSafeInteger (e_id e)) evs"
  shows "getNextId evs = (if evs = [] then 1 else Max (e_id ` set evs) + 1)"
proof (cases evs)
  case Nil
  then show ?thesis by (simp add: getNextId_def)
next
  case (Cons e es)
  have mx: "Max (set (e_id e # map e_id es)) = fold max (map e_id es) (e_id e)"
    by (rule Max.set_eq_fold)
  have "fold max (map e_id es) (e_id e) \<in> e_id ` set evs"
    using fold_max_mem [of "map e_id es" "e_id e"] Cons by simp
  with assms have "isSafeInteger (fold max (map e_id es) (e_id e))"
    by (auto simp: list_all_iff)
  then have "jsInc (fold max (map e_id es) (e_id e)) = fold max (map e_id es) (e_id e) + 1"
    by (simp add: isSafeInteger_def jsInc_exact)
  with mx Cons show ?thesis
    by (simp add: getNextId_def)
qed

text \<open>
  Where every id is at least \<open>- 2^53\<close> and below a bound \<open>n\<close> of at most \<open>2^53\<close>, the seed
  is above every id and not above \<open>max 1 n\<close>.
\<close>

lemma getNextId_bounds:
  assumes "list_all (\<lambda>e. - two53 \<le> e_id e) evs" and "idsBelow evs n" and "n \<le> two53"
  shows "idsBelow evs (getNextId evs) \<and> - two53 \<le> getNextId evs \<and> getNextId evs \<le> max 1 n"
proof (cases evs)
  case Nil
  then show ?thesis by (simp add: idsBelow_def getNextId_def two53_def)
next
  case (Cons e es)
  let ?M = "fold max (map e_id es) (e_id e)"
  have "?M \<in> e_id ` set evs"
    using fold_max_mem [of "map e_id es" "e_id e"] Cons by simp
  with assms have lo: "- two53 \<le> ?M" and hi: "?M < n"
    by (auto simp: list_all_iff idsBelow_def)
  with assms(3) have nx: "getNextId evs = ?M + 1"
    using Cons by (simp add: getNextId_def jsInc_exact)
  have "\<forall>x\<in>set (map e_id evs). x \<le> ?M"
    using fold_max_ge [of "e_id e" "map e_id es"] Cons by auto
  then have "idsBelow evs (?M + 1)"
    by (auto simp: idsBelow_def list_all_iff)
  with nx lo hi show ?thesis by simp
qed

lemma loadEvents_Json: "loadEvents (Some (Json evs)) = evs"
  by (simp add: loadEvents_def)

lemma storeInv_EventModel:
  assumes "distinct (map e_id (loadEvents saved))"
    and "list_all (\<lambda>e. isSafeInteger (e_id e)) (loadEvents saved)"
  shows "storeInv (EventModel saved) \<and> nextId (EventModel saved) \<le> two53"
proof -
  from assms(2) have lo: "list_all (\<lambda>e. - two53 \<le> e_id e) (loadEvents saved)"
    and hi: "idsBelow (loadEvents saved) two53"
    by (auto simp: list_all_iff isSafeInteger_def idsBelow_def)
  from getNextId_bounds [OF lo hi] assms(1) lo show ?thesis
    by (simp add: storeInv_def EventModel_def two53_def)
qed

lemma addEvent_inv:
  assumes "storeInv m" and "nextId m < two53"
  shows "storeInv (snd (addEvent now d m)) \<and> nextId (snd (addEvent now d m)) \<le> nextId m + 1"
proof (cases "missingRequired d")
  case True
  with assms show ?thesis by (simp add: addEvent_def)
next
  case False
  from assms(1) have lo: "- two53 \<le> nextId m"
    by (simp add: storeInv_def)
  with assms(2) have inc: "jsInc (nextId m) = nextId m + 1"
    by (simp add: jsInc_exact)
  from assms have "\<forall>e\<in>set (events m). e_id e < nextId m"
    by (simp add: storeInv_def idsBelow_def list_all_iff)
  then have "nextId m \<notin> e_id ` set (events m)" "\<forall>e\<in>set (events m). e_id e < nextId m + 1"
    by auto
  with False assms(1) lo inc show ?thesis
    by (simp add: addEvent_def Let_def saveEvents_def storeInv_def idsBelow_def list_all_iff
        loadEvents_Json)
qed

lemma deleteEvent_inv:
  assumes "storeInv m"
  shows "storeInv (snd (deleteEvent i m)) \<and> nextId (snd (deleteEvent i m)) = nextId m"
proof (cases "findIndex (\<lambda>e. Some (e_id e) = parseInt i) (events m)")
  case None
  with assms show ?thesis by (simp add: deleteEvent_def)
next
  case (Some index)
  let ?rest = "take index (events m) @ drop (Suc index) (events m)"
  have sub: "set ?rest \<subseteq> set (events m)"
    using set_take_subset set_drop_subset by fastforce
  from assms have "\<forall>e\<in>set (events m). e_id e < nextId m \<and> - two53 \<le> e_id e"
    by (simp add: storeInv_def idsBelow_def list_all_iff)
  with sub have "\<forall>e\<in>set ?rest. e_id e < nextId m \<and> - two53 \<le> e_id e"
    by blast
  moreover from assms have "distinct (map e_id ?rest)"
    using distinct_map_remove [of e_id "events m" index] by (simp add: storeInv_def)
  moreover from assms have "- two53 \<le> nextId m"
    by (simp add: storeInv_def)
  ultimately show ?thesis
    using Some
    by (simp add: deleteEvent_def saveEvents_def storeInv_def idsBelow_def list_all_iff
        loadEvents_Json del: set_append)
qed

lemma reconstruct_inv:
  assumes "storeInv m" and "nextId m \<le> two53"
  shows "storeInv (EventModel (ls_events m)) \<and>
         nextId (EventModel (ls_events m)) \<le> max 1 (nextId m)"
proof -
  from assms(1) have ev: "loadEvents (ls_events m) = events m"
    and d: "distinct (map e_id (events m))"
    and lo: "list_all (\<lambda>e. - two53 \<le> e_id e) (events m)"
    and below: "idsBelow (events m) (nextId m)"
    by (simp_all add: storeInv_def)
  from getNextId_bounds [OF lo below assms(2)] ev d lo show ?thesis
    by (simp add: storeInv_def EventModel_def)
qed

lemma step_inv:
  assumes "storeInv m" and "max 1 (nextId m) < two53"
  shows "storeInv (fst (step x m)) \<and> max 1 (nextId (fst (step x m))) \<le> max 1 (nextId m) + 1"
proof (cases x)
  case (Create now d)
  from assms(2) have "nextId m < two53" by simp
  from addEvent_inv [OF assms(1) this, of now d] Create show ?thesis
    by (auto split: prod.splits sum.splits)
next
  case (Delete i)
  from deleteEvent_inv [OF assms(1), of i] Delete show ?thesis by simp
next
  case Reconstruct
  from assms(2) have "nextId m \<le> two53" by simp
  from reconstruct_inv [OF assms(1) this] Reconstruct show ?thesis by simp
qed

lemma run_inv:
  "storeInv m \<Longrightarrow> max 1 (nextId m) + int (length xs) \<le> two53 \<Longrightarrow> storeInv (fst (run xs m))"
proof (induction xs arbitrary: m)
  case Nil
  then show ?case by simp
next
  case (Cons x xs)
  from Cons.prems(2) have now: "max 1 (nextId m) < two53"
    by (simp add: two53_def)
  from step_inv [OF Cons.prems(1) now, of x]
  have inv: "storeInv (fst (step x m))"
    and le: "max 1 (nextId (fst (step x m))) \<le> max 1 (nextId m) + 1"
    by simp_all
  from le Cons.prems(2) have "max 1 (nextId (fst (step x m))) + int (length xs) \<le> two53"
    by (simp add: max_def split: if_splits)
  from Cons.IH [OF inv this] show ?case
    by (simp add: split_beta Let_def)
qed

lemma step_fresh:
  assumes "x \<noteq> Reconstruct" and "idsBelow seen (nextId m)" and "distinct (map e_id seen)"
    and "- two53 \<le> nextId m" and "nextId m < two53"
  shows "idsBelow (seen @ snd (step x m)) (nextId (fst (step x m))) \<and>
         distinct (map e_id (seen @ snd (step x m))) \<and>
         nextId m \<le> nextId (fst (step x m)) \<and> nextId (fst (step x m)) \<le> nextId m + 1"
proof (cases x)
  case (Create now d)
  from assms(4,5) have inc: "jsInc (nextId m) = nextId m + 1"
    by (simp add: jsInc_exact)
  from assms(2) have below: "\<forall>e\<in>set seen. e_id e < nextId m"
    by (simp add: idsBelow_def list_all_iff)
  then have "nextId m \<notin> e_id ` set seen" "\<forall>e\<in>set seen. e_id e < nextId m + 1"
    by auto
  with Create assms(2,3) inc show ?thesis
    by (cases "missingRequired d")
      (simp_all add: addEvent_def saveEvents_def Let_def idsBelow_def list_all_iff)
next
  case (Delete i)
  with assms(2,3) show ?thesis
    by (simp add: deleteEvent_def saveEvents_def split: option.splits)
next
  case Reconstruct
  with assms(1) show ?thesis by simp
qed

lemma run_fresh:
  "Reconstruct \<notin> set xs \<Longrightarrow> idsBelow seen (nextId m) \<Longrightarrow> distinct (map e_id seen) \<Longrightarrow>
   - two53 \<le> nextId m \<Longrightarrow> nextId m + int (length xs) \<le> two53 \<Longrightarrow>
   distinct (map e_id (seen @ snd (run xs m)))"
proof (induction xs arbitrary: m seen)
  case Nil
  then show ?case by simp
next
  case (Cons x xs)
  from Cons.prems(1) have x: "x \<noteq> Reconstruct" and xs: "Reconstruct \<notin> set xs"
    by auto
  from Cons.prems(5) have now: "nextId m < two53"
    by simp
  from step_fresh [OF x Cons.prems(2,3,4) now]
  have below: "idsBelow (seen @ snd (step x m)) (nextId (fst (step x m)))"
    and dist: "distinct (map e_id (seen @ snd (step x m)))"
    and ge: "nextId m \<le> nextId (fst (step x m))"
    and le: "nextId (fst (step x m)) \<le> nextId m + 1"
    by simp_all
  from ge Cons.prems(4) have lo: "- two53 \<le> nextId (fst (step x m))"
    by simp
  from le Cons.prems(5) have budget: "nextId (fst (step x m)) + int (length xs) \<le> two53"
    by simp
  from Cons.IH [OF xs below dist lo budget] show ?case
    by (simp add: split_beta Let_def)
qed

text \<open>
  C5, as the code has it. Ids and the counter are doubles, so the statement is about
  safe integers (magnitude below \<open>2^53\<close>) and about histories short enough for the
  counter to stay at or below \<open>2^53\<close>. There, the counter is seeded as the maximum of the
  loaded ids plus one, or 1 for an empty collection. When the loaded collection has
  unique ids, the ids of the collection stay unique after every history of creations,
  deletions and reconstructions; and in a history without reconstruction (one store
  instance) every created event gets an id that no loaded or earlier created event has.
\<close>

theorem event_ids_unique_and_fresh_within_instance:
  assumes "distinct (map e_id (loadEvents saved))"
    and "list_all (\<lambda>e. isSafeInteger (e_id e)) (loadEvents saved)"
    and "max 1 (nextId (EventModel saved)) + int (length xs) \<le> two53"
  shows "nextId (EventModel saved) =
           (if loadEvents saved = [] then 1 else Max (e_id ` set (loadEvents saved)) + 1) \<and>
         distinct (map e_id (events (fst (run xs (EventModel saved))))) \<and>
         (Reconstruct \<notin> set xs \<longrightarrow>
            distinct (map e_id (loadEvents saved @ snd (run xs (EventModel saved)))))"
proof -
  have seed: "nextId (EventModel saved) =
           (if loadEvents saved = [] then 1 else Max (e_id ` set (loadEvents saved)) + 1)"
    using getNextId_Max [OF assms(2)] by (simp add: EventModel_def)
  from storeInv_EventModel [OF assms(1,2)] have inv: "storeInv (EventModel saved)"
    by simp
  have "storeInv (fst (run xs (EventModel saved)))"
    by (rule run_inv [OF inv assms(3)])
  then have uniq: "distinct (map e_id (events (fst (run xs (EventModel saved)))))"
    by (simp add: storeInv_def)
  from inv have below: "idsBelow (loadEvents saved) (nextId (EventModel saved))"
    and lo: "- two53 \<le> nextId (EventModel saved)"
    by (simp_all add: storeInv_def EventModel_def)
  from assms(3) have budget: "nextId (EventModel saved) + int (length xs) \<le> two53"
    by simp
  have fresh: "Reconstruct \<notin> set xs \<longrightarrow>
      distinct (map e_id (loadEvents saved @ snd (run xs (EventModel saved))))"
    using run_fresh [of xs "loadEvents saved" "EventModel saved"] assms(1) below lo budget
    by simp
  show ?thesis by (intro conjI seed uniq fresh)
qed

theorem event_ids_unique_and_fresh_within_instance_witness:
  "distinct (map e_id (loadEvents (Some (Json
      [\<lparr>e_id = 5, e_title = ''A'', e_description = ''D'', e_date = ''2025-01-01'', e_time = ''10:00'',
        e_location = ''L'', e_createdBy = ''admin'', e_createdAt = ''t0'', e_updatedAt = None\<rparr>])))) \<and>
   list_all (\<lambda>e. isSafeInteger (e_id e)) (loadEvents (Some (Json
      [\<lparr>e_id = 5, e_title = ''A'', e_description = ''D'', e_date = ''2025-01-01'', e_time = ''10:00'',
        e_location = ''L'', e_createdBy = ''admin'', e_createdAt = ''t0'', e_updatedAt = None\<rparr>]))) \<and>
   Reconstruct \<notin> set [Delete (JStr ''5''),
      Create ''t1'' \<lparr>d_title = Some ''B'', d_description = Some ''D'', d_date = Some ''2025-01-01'',
                     d_time = Some ''10:00'', d_location = Some ''L'', d_createdBy = Some ''admin''\<rparr>] \<and>
   distinct (map e_id (loadEvents (Some (Json
      [\<lparr>e_id = 5, e_title = ''A'', e_description = ''D'', e_date = ''2025-01-01'', e_time = ''10:00'',
        e_location = ''L'', e_createdBy = ''admin'', e_createdAt = ''t0'', e_updatedAt = None\<rparr>])) @
    snd (run [Delete (JStr ''5''),
      Create ''t1'' \<lparr>d_title = Some ''B'', d_description = Some ''D'', d_date = Some ''2025-01-01'',
                     d_time = Some ''10:00'', d_location = Some ''L'', d_createdBy = Some ''admin''\<rparr>]
      (EventModel (Some (Json
      [\<lparr>e_id = 5, e_title = ''A'', e_description = ''D'', e_date = ''2025-01-01'', e_time = ''10:00'',
        e_location = ''L'', e_createdBy = ''admin'', e_createdAt = ''t0'', e_updatedAt = None\<rparr>]))))))"
proof -
  let ?saved = "Some (Json
      [\<lparr>e_id = 5, e_title = ''A'', e_description = ''D'', e_date = ''2025-01-01'', e_time = ''10:00'',
        e_location = ''L'', e_createdBy = ''admin'', e_createdAt = ''t0'', e_updatedAt = None\<rparr>])"
  let ?xs = "[Delete (JStr ''5''),
      Create ''t1'' \<lparr>d_title = Some ''B'', d_description = Some ''D'', d_date = Some ''2025-01-01'',
                     d_time = Some ''10:00'', d_location = Some ''L'', d_createdBy = Some ''admin''\<rparr>]"
  have h: "distinct (map e_id (loadEvents ?saved))"
    by (simp add: loadEvents_def)
  have s: "list_all (\<lambda>e. isSafeInteger (e_id e)) (loadEvents ?saved)"
    by (simp add: loadEvents_def isSafeInteger_def two53_def)
  have b: "max 1 (nextId (EventModel ?saved)) + int (length ?xs) \<le> two53"
    by (simp add: EventModel_def loadEvents_def getNextId_def jsInc_def two53_def)
  have r: "Reconstruct \<notin> set ?xs"
    by simp
  note w = event_ids_unique_and_fresh_within_instance [OF h s b]
  from w r have "distinct (map e_id (loadEvents ?saved @ snd (run ?xs (EventModel ?saved))))"
    by (elim conjE impE)
  with h s r show ?thesis
    by (intro conjI)
qed

text \<open>
  C5, as stated, fails: after the event with the highest id is deleted and the store is
  reconstructed from what it persisted, the counter is seeded from the events that
  remain, and the next creation gets the id of the deleted event. The three events
  created below are distinct and get the ids 1, 2 and 2.
\<close>

theorem event_id_reused_after_reconstruction:
  "map e_id (snd (run
      [Create ''t1'' \<lparr>d_title = Some ''A'', d_description = Some ''D'', d_date = Some ''2025-01-01'',
                     d_time = Some ''10:00'', d_location = Some ''L'', d_createdBy = Some ''admin''\<rparr>,
       Create ''t2'' \<lparr>d_title = Some ''B'', d_description = Some ''D'', d_date = Some ''2025-01-01'',
                     d_time = Some ''10:00'', d_location = Some ''L'', d_createdBy = Some ''admin''\<rparr>,
       Delete (JNum 2),
       Reconstruct,
       Create ''t3'' \<lparr>d_title = Some ''C'', d_description = Some ''D'', d_date = Some ''2025-01-01'',
                     d_time = Some ''10:00'', d_location = Some ''L'', d_createdBy = Some ''admin''\<rparr>]
      (EventModel None))) = [1, 2, 2] \<and>
   map e_title (snd (run
      [Create ''t1'' \<lparr>d_title = Some ''A'', d_description = Some ''D'', d_date = Some ''2025-01-01'',
                     d_time = Some ''10:00'', d_location = Some ''L'', d_createdBy = Some ''admin''\<rparr>,
       Create ''t2'' \<lparr>d_title = Some ''B'', d_description = Some ''D'', d_date = Some ''2025-01-01'',
                     d_time = Some ''10:00'', d_location = Some ''L'', d_createdBy = Some ''admin''\<rparr>,
       Delete (JNum 2),
       Reconstruct,
       Create ''t3'' \<lparr>d_title = Some ''C'', d_description = Some ''D'', d_date = Some ''2025-01-01'',
                     d_time = Some ''10:00'', d_location = Some ''L'', d_createdBy = Some ''admin''\<rparr>]
      (EventModel None))) = [''A'', ''B'', ''C'']"
  by (simp add: addEvent_def deleteEvent_def missingRequired_def falsy_def EventModel_def
      loadEvents_def getNextId_def jsInc_def two53_def trim_def isWhiteSpace_def saveEvents_def
      Let_def)

text \<open>
  Outside that range the counter stops: a store loaded with the id \<open>2^53 - 1\<close> is seeded
  with \<open>2^53\<close>, where \<^verbatim>\<open>nextId++\<close> no longer advances, and two creations get the same id.
\<close>

lemma event_id_repeated_at_two53:
  "map e_id (snd (run
      [Create ''t1'' \<lparr>d_title = Some ''B'', d_description = Some ''D'', d_date = Some ''2025-01-01'',
                     d_time = Some ''10:00'', d_location = Some ''L'', d_createdBy = Some ''admin''\<rparr>,
       Create ''t2'' \<lparr>d_title = Some ''C'', d_description = Some ''D'', d_date = Some ''2025-01-01'',
                     d_time = Some ''10:00'', d_location = Some ''L'', d_createdBy = Some ''admin''\<rparr>]
      (EventModel (Some (Json
        [\<lparr>e_id = 9007199254740991, e_title = ''A'', e_description = ''D'', e_date = ''2025-01-01'',
          e_time = ''10:00'', e_location = ''L'', e_createdBy = ''admin'', e_createdAt = ''t0'',
          e_updatedAt = None\<rparr>]))))) =
   [9007199254740992, 9007199254740992]"
  by (simp add: addEvent_def missingRequired_def falsy_def EventModel_def
      loadEvents_def getNextId_def jsInc_def two53_def trim_def isWhiteSpace_def saveEvents_def
      Let_def)

section \<open>AuthModel: construction\<close>

text \<open>
  C7. Constructing the account store seeds the two fixed accounts (an \<^verbatim>\<open>admin\<close> and a
  \<^verbatim>\<open>user\<close>) and persists them when the \<^verbatim>\<open>users\<close> key is absent. When the key holds a
  serialized collection, the empty one included, the store takes that collection and
  writes nothing. The key is written by construction exactly when it is absent (or holds
  the empty string, which is no collection), and a second construction on what the first
  one left returns the same collection and the same storage: seeding does not run twice.
\<close>

theorem AuthModel_seeds_only_when_absent:
  "loadUsers t1 t2 None = (defaultUsers t1 t2, Some (Json (defaultUsers t1 t2))) \<and>
   loadUsers t1 t2 (Some (Json us)) = (us, Some (Json us)) \<and>
   loadUsers t1 t2 (Some (Json [])) = ([], Some (Json [])) \<and>
   (snd (loadUsers t1 t2 saved) \<noteq> saved) = (saved = None \<or> saved = Some (Raw [])) \<and>
   loadUsers t3 t4 (snd (loadUsers t1 t2 saved)) = loadUsers t1 t2 saved \<and>
   users (AuthModel t1 t2 saved sc) = fst (loadUsers t1 t2 saved) \<and>
   ls_users (AuthModel t1 t2 saved sc) = snd (loadUsers t1 t2 saved) \<and>
   users (AuthModel t3 t4 (ls_users (AuthModel t1 t2 saved sc)) sc') =
     users (AuthModel t1 t2 saved sc) \<and>
   ls_users (AuthModel t3 t4 (ls_users (AuthModel t1 t2 saved sc)) sc') =
     ls_users (AuthModel t1 t2 saved sc) \<and>
   length (defaultUsers t1 t2) = 2 \<and>
   map u_role (defaultUsers t1 t2) = [''admin'', ''user''] \<and>
   map u_username (defaultUsers t1 t2) = [''admin'', ''user''] \<and>
   map u_password (defaultUsers t1 t2) = [''password'', ''123456'']"
proof -
  have a: "loadUsers t1 t2 None = (defaultUsers t1 t2, Some (Json (defaultUsers t1 t2)))"
    by (simp add: loadUsers_def)
  have b: "loadUsers t1 t2 (Some (Json vs)) = (vs, Some (Json vs))" for vs
    by (simp add: loadUsers_def)
  have c: "(snd (loadUsers t1 t2 saved) \<noteq> saved) = (saved = None \<or> saved = Some (Raw []))"
  proof (cases saved)
    case None
    then show ?thesis by (simp add: loadUsers_def)
  next
    case (Some bl)
    then show ?thesis by (cases bl) (simp_all add: loadUsers_def)
  qed
  have d: "loadUsers t3 t4 (snd (loadUsers t1 t2 saved)) = loadUsers t1 t2 saved"
  proof (cases saved)
    case None
    then show ?thesis by (simp add: loadUsers_def)
  next
    case (Some bl)
    then show ?thesis by (cases bl) (simp_all add: loadUsers_def)
  qed
  have e: "users (AuthModel s1 s2 sv c0) = fst (loadUsers s1 s2 sv)" for s1 s2 sv c0
    by (simp add: AuthModel_def split_beta)
  have f: "ls_users (AuthModel s1 s2 sv c0) = snd (loadUsers s1 s2 sv)" for s1 s2 sv c0
    by (simp add: AuthModel_def split_beta)
  have e2: "users (AuthModel t3 t4 (ls_users (AuthModel t1 t2 saved sc)) sc') =
     users (AuthModel t1 t2 saved sc)"
    by (simp add: e f d)
  have f2: "ls_users (AuthModel t3 t4 (ls_users (AuthModel t1 t2 saved sc)) sc') =
     ls_users (AuthModel t1 t2 saved sc)"
    by (simp add: e f d)
  have g: "length (defaultUsers t1 t2) = 2" by (simp add: defaultUsers_def)
  have h: "map u_role (defaultUsers t1 t2) = [''admin'', ''user'']" by (simp add: defaultUsers_def)
  have i: "map u_username (defaultUsers t1 t2) = [''admin'', ''user'']" by (simp add: defaultUsers_def)
  have j: "map u_password (defaultUsers t1 t2) = [''password'', ''123456'']" by (simp add: defaultUsers_def)
  show ?thesis by (intro conjI a b c d e f e2 f2 g h i j)
qed

section \<open>AuthModel: authentication\<close>

lemma failsBy_no_match:
  "failsBy c us username password \<Longrightarrow> findIndex (credentialsMatch username password) us = None"
  by (cases c)
    (auto simp: findIndex_None credentialsMatch_def usernameMatches_def list_ex_iff list_all_iff)

lemma no_match_has_cause:
  assumes "findIndex (credentialsMatch username password) us = None"
  shows "\<exists>c. failsBy c us username password"
proof (cases "list_ex (usernameMatches username) us")
  case False
  then have "failsBy UsernameAbsent us username password" by simp
  then show ?thesis ..
next
  case True
  show ?thesis
  proof (cases "list_ex (\<lambda>u. usernameMatches username u \<and> u_password u = password) us")
    case False
    with True have "failsBy WrongPassword us username password" by simp
    then show ?thesis ..
  next
    case pw: True
    from assms have "\<forall>u\<in>set us. \<not> credentialsMatch username password u"
      by (simp add: findIndex_None)
    then have "failsBy AccountInactive us username password"
      using pw by (auto simp: credentialsMatch_def usernameMatches_def list_all_iff)
    then show ?thesis ..
  qed
qed

lemma authenticate_failure:
  assumes "username \<noteq> []" and "password \<noteq> []" and "failsBy c (users m) username password"
  shows "authenticate t1 t2 username password m = (Inr None, m)"
  using assms(1,2) failsBy_no_match [OF assms(3)] by (simp add: authenticate_def)

text \<open>
  C2. Two calls of \<^verbatim>\<open>authenticate\<close> with non-empty arguments that fail, each for any of
  the three reasons (no account with the user name, a wrong password, an inactive
  account), return the same value: the \<^verbatim>\<open>null\<close> of an authentication that failed, with
  the model unchanged. Time is not part of the model; the statement is about the value.
\<close>

theorem authenticate_failures_indistinguishable:
  assumes "username \<noteq> []" and "password \<noteq> []" and "username' \<noteq> []" and "password' \<noteq> []"
    and "failsBy c (users m) username password"
    and "failsBy c' (users m') username' password'"
  shows "fst (authenticate t1 t2 username password m) = fst (authenticate t3 t4 username' password' m') \<and>
         authenticate t1 t2 username password m = (Inr None, m) \<and>
         authenticate t3 t4 username' password' m' = (Inr None, m')"
  using authenticate_failure [OF assms(1,2,5)] authenticate_failure [OF assms(3,4,6)]
  by simp

theorem authenticate_failures_indistinguishable_witness:
  "failsBy UsernameAbsent (defaultUsers ''t1'' ''t2'') ''nobody'' ''password'' \<and>
   failsBy WrongPassword (defaultUsers ''t1'' ''t2'') ''Admin'' ''wrong'' \<and>
   failsBy AccountInactive (map (\<lambda>u. u\<lparr>u_isActive := Some False\<rparr>) (defaultUsers ''t1'' ''t2''))
     ''user'' ''123456'' \<and>
   fst (authenticate ''t3'' ''t4'' ''nobody'' ''password'' (AuthModel ''t1'' ''t2'' None None)) =
   fst (authenticate ''t5'' ''t6'' ''Admin'' ''wrong'' (AuthModel ''t1'' ''t2'' None None)) \<and>
   fst (authenticate ''t5'' ''t6'' ''Admin'' ''wrong'' (AuthModel ''t1'' ''t2'' None None)) =
   fst (authenticate ''t7'' ''t8'' ''user'' ''123456''
     (AuthModel ''t1'' ''t2''
        (Some (Json (map (\<lambda>u. u\<lparr>u_isActive := Some False\<rparr>) (defaultUsers ''t1'' ''t2'')))) None))"
proof -
  let ?m = "AuthModel ''t1'' ''t2'' None None"
  let ?off = "map (\<lambda>u. u\<lparr>u_isActive := Some False\<rparr>) (defaultUsers ''t1'' ''t2'')"
  let ?m' = "AuthModel ''t1'' ''t2'' (Some (Json ?off)) None"
  have u: "users ?m = defaultUsers ''t1'' ''t2''"
    by (simp add: AuthModel_def loadUsers_def)
  have u': "users ?m' = ?off"
    by (simp add: AuthModel_def loadUsers_def)
  have a: "failsBy UsernameAbsent (defaultUsers ''t1'' ''t2'') ''nobody'' ''password''"
    by code_simp
  have b: "failsBy WrongPassword (defaultUsers ''t1'' ''t2'') ''Admin'' ''wrong''"
    by code_simp
  have c: "failsBy AccountInactive ?off ''user'' ''123456''"
    by code_simp
  have ne: "''nobody'' \<noteq> []" "''password'' \<noteq> []" "''Admin'' \<noteq> []" "''wrong'' \<noteq> []"
    "''user'' \<noteq> []" "''123456'' \<noteq> []"
    by simp_all
  from a u have a': "failsBy UsernameAbsent (users ?m) ''nobody'' ''password''"
    by simp
  from b u have b': "failsBy WrongPassword (users ?m) ''Admin'' ''wrong''"
    by simp
  from c u' have c': "failsBy AccountInactive (users ?m') ''user'' ''123456''"
    by simp
  note w1 = authenticate_failures_indistinguishable
    [OF ne(1) ne(2) ne(3) ne(4) a' b', of "''t3''" "''t4''" "''t5''" "''t6''"]
  note w2 = authenticate_failures_indistinguishable
    [OF ne(3) ne(4) ne(5) ne(6) b' c', of "''t5''" "''t6''" "''t7''" "''t8''"]
  show ?thesis
    by (intro conjI a b c conjunct1 [OF w1] conjunct1 [OF w2])
qed

text \<open>
  C3. When \<^verbatim>\<open>authenticate\<close> succeeds, the session it returns (and stores as the current
  user) has the properties \<^verbatim>\<open>id\<close>, \<^verbatim>\<open>username\<close>, \<^verbatim>\<open>role\<close>, \<^verbatim>\<open>email\<close>, \<^verbatim>\<open>fullName\<close>,
  \<^verbatim>\<open>phone\<close>, \<^verbatim>\<open>lastLogin\<close> and \<^verbatim>\<open>loginTime\<close> and no other, so no \<^verbatim>\<open>password\<close>; the
  values are those of an account of the collection that matches the credentials, with
  the time of the login.
\<close>

theorem authenticate_session_has_no_password:
  assumes "authenticate t1 t2 username password m = (Inr (Some ss), m')"
  shows "''password'' \<notin> dom ss \<and>
         dom ss = {''id'', ''username'', ''role'', ''email'', ''fullName'', ''phone'',
                   ''lastLogin'', ''loginTime''} \<and>
         (\<exists>u\<in>set (users m).
            credentialsMatch username password u \<and>
            ss ''id'' = Some (JNum (u_id u)) \<and>
            ss ''username'' = Some (JStr (u_username u)) \<and>
            ss ''role'' = Some (JStr (u_role u)) \<and>
            ss ''email'' = Some (JStr (u_email u)) \<and>
            ss ''fullName'' = Some (JStr (u_fullName u)) \<and>
            ss ''phone'' = Some (JStr (u_phone u)) \<and>
            ss ''lastLogin'' = Some (JStr t1) \<and>
            ss ''loginTime'' = Some (JStr t2)) \<and>
         currentUser m' = Some ss"
proof -
  from assms have ne: "username \<noteq> []" "password \<noteq> []"
    by (auto simp: authenticate_def split: if_splits)
  from assms ne obtain i where i: "findIndex (credentialsMatch username password) (users m) = Some i"
    by (cases "findIndex (credentialsMatch username password) (users m)")
      (auto simp: authenticate_def)
  let ?u = "users m ! i"
  from findIndex_Some [OF i] have mem: "?u \<in> set (users m)" and ok: "credentialsMatch username password ?u"
    by auto
  have ss: "ss = [''id'' \<mapsto> JNum (u_id ?u), ''username'' \<mapsto> JStr (u_username ?u),
                  ''role'' \<mapsto> JStr (u_role ?u), ''email'' \<mapsto> JStr (u_email ?u),
                  ''fullName'' \<mapsto> JStr (u_fullName ?u), ''phone'' \<mapsto> JStr (u_phone ?u),
                  ''loginTime'' \<mapsto> JStr t2, ''lastLogin'' \<mapsto> JStr t1]"
    and cu: "currentUser m' = Some ss"
    using assms ne i by (auto simp: authenticate_def Let_def saveCurrentUser_def saveUsers_def)
  have d: "dom ss = {''id'', ''username'', ''role'', ''email'', ''fullName'', ''phone'',
                   ''lastLogin'', ''loginTime''}"
    unfolding ss by auto
  have p: "''password'' \<notin> dom ss"
    unfolding d by simp
  have v: "ss ''id'' = Some (JNum (u_id ?u)) \<and>
            ss ''username'' = Some (JStr (u_username ?u)) \<and>
            ss ''role'' = Some (JStr (u_role ?u)) \<and>
            ss ''email'' = Some (JStr (u_email ?u)) \<and>
            ss ''fullName'' = Some (JStr (u_fullName ?u)) \<and>
            ss ''phone'' = Some (JStr (u_phone ?u)) \<and>
            ss ''lastLogin'' = Some (JStr t1) \<and>
            ss ''loginTime'' = Some (JStr t2)"
    unfolding ss by simp
  have ex: "\<exists>u\<in>set (users m).
            credentialsMatch username password u \<and>
            ss ''id'' = Some (JNum (u_id u)) \<and>
            ss ''username'' = Some (JStr (u_username u)) \<and>
            ss ''role'' = Some (JStr (u_role u)) \<and>
            ss ''email'' = Some (JStr (u_email u)) \<and>
            ss ''fullName'' = Some (JStr (u_fullName u)) \<and>
            ss ''phone'' = Some (JStr (u_phone u)) \<and>
            ss ''lastLogin'' = Some (JStr t1) \<and>
            ss ''loginTime'' = Some (JStr t2)"
  proof (rule bexI)
    show "credentialsMatch username password ?u \<and>
            ss ''id'' = Some (JNum (u_id ?u)) \<and>
            ss ''username'' = Some (JStr (u_username ?u)) \<and>
            ss ''role'' = Some (JStr (u_role ?u)) \<and>
            ss ''email'' = Some (JStr (u_email ?u)) \<and>
            ss ''fullName'' = Some (JStr (u_fullName ?u)) \<and>
            ss ''phone'' = Some (JStr (u_phone ?u)) \<and>
            ss ''lastLogin'' = Some (JStr t1) \<and>
            ss ''loginTime'' = Some (JStr t2)"
      by (rule conjI [OF ok v])
    show "?u \<in> set (users m)"
      by (rule mem)
  qed
  show ?thesis by (intro conjI p d ex cu)
qed

theorem authenticate_session_has_no_password_witness:
  "fst (authenticate ''t3'' ''t4'' '' Admin '' ''password'' (AuthModel ''t1'' ''t2'' None None)) =
     Inr (Some [''id'' \<mapsto> JNum 1, ''username'' \<mapsto> JStr ''admin'', ''role'' \<mapsto> JStr ''admin'',
       ''email'' \<mapsto> JStr ''admin@eventmanager.com'', ''fullName'' \<mapsto> JStr ''System Administrator'',
       ''phone'' \<mapsto> JStr ''+1-555-0100'', ''loginTime'' \<mapsto> JStr ''t4'', ''lastLogin'' \<mapsto> JStr ''t3'']) \<and>
   ''password'' \<notin> dom [''id'' \<mapsto> JNum 1, ''username'' \<mapsto> JStr ''admin'', ''role'' \<mapsto> JStr ''admin'',
       ''email'' \<mapsto> JStr ''admin@eventmanager.com'', ''fullName'' \<mapsto> JStr ''System Administrator'',
       ''phone'' \<mapsto> JStr ''+1-555-0100'', ''loginTime'' \<mapsto> JStr ''t4'', ''lastLogin'' \<mapsto> JStr ''t3'']"
proof -
  let ?m = "AuthModel ''t1'' ''t2'' None None"
  let ?ss = "[''id'' \<mapsto> JNum 1, ''username'' \<mapsto> JStr ''admin'', ''role'' \<mapsto> JStr ''admin'',
       ''email'' \<mapsto> JStr ''admin@eventmanager.com'', ''fullName'' \<mapsto> JStr ''System Administrator'',
       ''phone'' \<mapsto> JStr ''+1-555-0100'', ''loginTime'' \<mapsto> JStr ''t4'', ''lastLogin'' \<mapsto> JStr ''t3'']"
  have r: "fst (authenticate ''t3'' ''t4'' '' Admin '' ''password'' ?m) = Inr (Some ?ss)"
    by (simp add: authenticate_def AuthModel_def loadUsers_def defaultUsers_def credentialsMatch_def
        toLowerCase_def lowerChar_def trim_def isWhiteSpace_def Let_def)
  then have "authenticate ''t3'' ''t4'' '' Admin '' ''password'' ?m =
      (Inr (Some ?ss), snd (authenticate ''t3'' ''t4'' '' Admin '' ''password'' ?m))"
    by (simp add: prod_eq_iff)
  note w = authenticate_session_has_no_password [OF this]
  show ?thesis by (rule conjI [OF r conjunct1 [OF w]])
qed

section \<open>AuthModel: password change\<close>

text \<open>
  C9. \<^verbatim>\<open>changePassword\<close> makes its checks in this order. Without a session it fails
  (\<^verbatim>\<open>User not authenticated\<close>). With a session whose account is found, it fails with the
  authentication error \<^verbatim>\<open>Current password is incorrect\<close> whenever the current password
  differs from the stored one; when that matches, it fails with the validation error on
  a new password shorter than 6 characters, and otherwise overwrites the password in
  the collection in memory and returns \<^verbatim>\<open>true\<close>. In every case the storage and the
  session are as before: nothing is written.
\<close>

theorem changePassword_outcomes:
  "(currentUser m = None \<longrightarrow>
      changePassword cur new m = (Inl (Error ''User not authenticated''), m)) \<and>
   (currentUser m \<noteq> None \<and> sessionAccountIndex m = None \<longrightarrow>
      changePassword cur new m = (Inr False, m)) \<and>
   (sessionAccountIndex m = Some i \<and> u_password (users m ! i) \<noteq> cur \<longrightarrow>
      changePassword cur new m = (Inl (Error ''Current password is incorrect''), m)) \<and>
   (sessionAccountIndex m = Some i \<and> u_password (users m ! i) = cur \<and> length new < 6 \<longrightarrow>
      changePassword cur new m =
        (Inl (Error ''New password must be at least 6 characters long''), m)) \<and>
   (sessionAccountIndex m = Some i \<and> u_password (users m ! i) = cur \<and> 6 \<le> length new \<longrightarrow>
      changePassword cur new m =
        (Inr True, m\<lparr>users := (users m)[i := (users m ! i)\<lparr>u_password := new\<rparr>]\<rparr>) \<and>
      u_password (users (snd (changePassword cur new m)) ! i) = new) \<and>
   ls_users (snd (changePassword cur new m)) = ls_users m \<and>
   ls_currentUser (snd (changePassword cur new m)) = ls_currentUser m \<and>
   currentUser (snd (changePassword cur new m)) = currentUser m"
proof -
  have a: "currentUser m = None \<longrightarrow>
      changePassword cur new m = (Inl (Error ''User not authenticated''), m)"
    by (simp add: changePassword_def)
  have a': "currentUser m \<noteq> None \<and> sessionAccountIndex m = None \<longrightarrow>
      changePassword cur new m = (Inr False, m)"
    by (auto simp: changePassword_def sessionAccountIndex_def split: option.splits)
  have b: "sessionAccountIndex m = Some i \<and> u_password (users m ! i) \<noteq> cur \<longrightarrow>
      changePassword cur new m = (Inl (Error ''Current password is incorrect''), m)"
    by (auto simp: changePassword_def sessionAccountIndex_def split: option.splits)
  have c: "sessionAccountIndex m = Some i \<and> u_password (users m ! i) = cur \<and> length new < 6 \<longrightarrow>
      changePassword cur new m =
        (Inl (Error ''New password must be at least 6 characters long''), m)"
    by (auto simp: changePassword_def sessionAccountIndex_def split: option.splits)
  have d: "sessionAccountIndex m = Some i \<and> u_password (users m ! i) = cur \<and> 6 \<le> length new \<longrightarrow>
      changePassword cur new m =
        (Inr True, m\<lparr>users := (users m)[i := (users m ! i)\<lparr>u_password := new\<rparr>]\<rparr>) \<and>
      u_password (users (snd (changePassword cur new m)) ! i) = new"
  proof (intro impI, elim conjE)
    assume i: "sessionAccountIndex m = Some i" and p: "u_password (users m ! i) = cur"
      and l: "6 \<le> length new"
    from i obtain cu where cu: "currentUser m = Some cu"
      and f: "findIndex (\<lambda>u. Some (JStr (u_username u)) = cu ''username'') (users m) = Some i"
      by (auto simp: sessionAccountIndex_def split: option.splits)
    from findIndex_Some [OF f] have "i < length (users m)" by simp
    with cu f p l show "changePassword cur new m =
        (Inr True, m\<lparr>users := (users m)[i := (users m ! i)\<lparr>u_password := new\<rparr>]\<rparr>) \<and>
      u_password (users (snd (changePassword cur new m)) ! i) = new"
      by (auto simp: changePassword_def)
  qed
  have e: "ls_users (snd (changePassword cur new m)) = ls_users m"
    by (simp add: changePassword_def split: option.splits)
  have f: "ls_currentUser (snd (changePassword cur new m)) = ls_currentUser m"
    by (simp add: changePassword_def split: option.splits)
  have g: "currentUser (snd (changePassword cur new m)) = currentUser m"
    by (simp add: changePassword_def split: option.splits)
  show ?thesis by (intro conjI a a' b c d e f g)
qed

theorem changePassword_outcomes_witness:
  "changePassword ''password'' ''secret1'' (AuthModel ''t1'' ''t2'' None None) =
     (Inl (Error ''User not authenticated''), AuthModel ''t1'' ''t2'' None None) \<and>
   fst (changePassword ''wrong'' ''secret1''
     (snd (authenticate ''t3'' ''t4'' ''admin'' ''password'' (AuthModel ''t1'' ''t2'' None None)))) =
     Inl (Error ''Current password is incorrect'') \<and>
   fst (changePassword ''password'' ''abc''
     (snd (authenticate ''t3'' ''t4'' ''admin'' ''password'' (AuthModel ''t1'' ''t2'' None None)))) =
     Inl (Error ''New password must be at least 6 characters long'') \<and>
   fst (changePassword ''password'' ''secret1''
     (snd (authenticate ''t3'' ''t4'' ''admin'' ''password'' (AuthModel ''t1'' ''t2'' None None)))) =
     Inr True \<and>
   u_password (users (snd (changePassword ''password'' ''secret1''
     (snd (authenticate ''t3'' ''t4'' ''admin'' ''password'' (AuthModel ''t1'' ''t2'' None None))))) ! 0) =
     ''secret1'' \<and>
   ls_users (snd (changePassword ''password'' ''secret1''
     (snd (authenticate ''t3'' ''t4'' ''admin'' ''password'' (AuthModel ''t1'' ''t2'' None None))))) =
   ls_users (snd (authenticate ''t3'' ''t4'' ''admin'' ''password'' (AuthModel ''t1'' ''t2'' None None)))"
proof -
  let ?init = "AuthModel ''t1'' ''t2'' None None"
  let ?m = "snd (authenticate ''t3'' ''t4'' ''admin'' ''password'' ?init)"
  have out: "currentUser ?init = None"
    by (simp add: AuthModel_def loadUsers_def loadCurrentUser_def)
  have idx: "sessionAccountIndex ?m = Some 0"
    by (simp add: sessionAccountIndex_def authenticate_def AuthModel_def loadUsers_def
        defaultUsers_def credentialsMatch_def toLowerCase_def lowerChar_def trim_def
        isWhiteSpace_def Let_def saveUsers_def saveCurrentUser_def)
  have pw: "u_password (users ?m ! 0) = ''password''"
    by (simp add: authenticate_def AuthModel_def loadUsers_def
        defaultUsers_def credentialsMatch_def toLowerCase_def lowerChar_def trim_def
        isWhiteSpace_def Let_def saveUsers_def saveCurrentUser_def)
  have wrong: "u_password (users ?m ! 0) \<noteq> ''wrong''"
    unfolding pw by simp
  have short: "length ''abc'' < 6" and long: "6 \<le> length ''secret1''"
    by simp_all
  note w0 = changePassword_outcomes [of ?init "''password''" "''secret1''" 0]
  note w1 = changePassword_outcomes [of ?m "''wrong''" "''secret1''" 0]
  note w2 = changePassword_outcomes [of ?m "''password''" "''abc''" 0]
  note w3 = changePassword_outcomes [of ?m "''password''" "''secret1''" 0]
  have r0: "changePassword ''password'' ''secret1'' ?init =
      (Inl (Error ''User not authenticated''), ?init)"
    by (rule mp [OF conjunct1 [OF w0] out])
  have "changePassword ''wrong'' ''secret1'' ?m = (Inl (Error ''Current password is incorrect''), ?m)"
    by (rule mp [OF conjunct1 [OF conjunct2 [OF conjunct2 [OF w1]]] conjI [OF idx wrong]])
  then have r1: "fst (changePassword ''wrong'' ''secret1'' ?m) = Inl (Error ''Current password is incorrect'')"
    by (rule arg_cong [where f = fst, THEN trans]) (rule fst_conv)
  have "changePassword ''password'' ''abc'' ?m =
      (Inl (Error ''New password must be at least 6 characters long''), ?m)"
    by (rule mp [OF conjunct1 [OF conjunct2 [OF conjunct2 [OF conjunct2 [OF w2]]]]
          conjI [OF idx conjI [OF pw short]]])
  then have r2: "fst (changePassword ''password'' ''abc'' ?m) =
      Inl (Error ''New password must be at least 6 characters long'')"
    by (rule arg_cong [where f = fst, THEN trans]) (rule fst_conv)
  have ok: "changePassword ''password'' ''secret1'' ?m =
        (Inr True, ?m\<lparr>users := (users ?m)[0 := (users ?m ! 0)\<lparr>u_password := ''secret1''\<rparr>]\<rparr>) \<and>
      u_password (users (snd (changePassword ''password'' ''secret1'' ?m)) ! 0) = ''secret1''"
    by (rule mp [OF conjunct1 [OF conjunct2 [OF conjunct2 [OF conjunct2 [OF conjunct2 [OF w3]]]]]
          conjI [OF idx conjI [OF pw long]]])
  have r3: "fst (changePassword ''password'' ''secret1'' ?m) = Inr True"
    using conjunct1 [OF ok] by (rule arg_cong [where f = fst, THEN trans]) (rule fst_conv)
  have r4: "u_password (users (snd (changePassword ''password'' ''secret1'' ?m)) ! 0) = ''secret1''"
    using ok by (rule conjunct2)
  have r5: "ls_users (snd (changePassword ''password'' ''secret1'' ?m)) = ls_users ?m"
    by (rule conjunct1 [OF conjunct2 [OF conjunct2 [OF conjunct2 [OF conjunct2 [OF conjunct2 [OF w3]]]]]])
  show ?thesis by (intro conjI r0 r1 r2 r3 r4 r5)
qed

section \<open>AuthModel: registration\<close>

lemma usernameTaken_iff:
  "usernameTaken us n \<longleftrightarrow> (\<exists>u\<in>set us. toLowerCase (u_username u) = toLowerCase n)"
  by (auto simp: usernameTaken_def find_None_iff)

lemma emailTaken_iff:
  "emailTaken us e \<longleftrightarrow> (\<exists>u\<in>set us. toLowerCase (u_email u) = toLowerCase e)"
  by (auto simp: emailTaken_def find_None_iff)

lemma emailTaken_case_variant:
  "emailTaken
     [\<lparr>u_id = 3, u_username = ''zoe'', u_password = ''secret1'', u_role = ''user'',
       u_email = [CHR ''z'', CHR ''o'', CHR 0xE9, CHR ''@'', CHR ''x'', CHR ''.'', CHR ''c'', CHR ''o''],
       u_fullName = ''Zoe'', u_phone = [], u_createdAt = ''t'', u_isActive = Some True,
       u_lastLogin = Some None, u_updatedAt = None\<rparr>]
     [CHR ''Z'', CHR ''O'', CHR 0xC9, CHR ''@'', CHR ''X'', CHR ''.'', CHR ''C'', CHR ''O'']"
  by (simp add: emailTaken_def toLowerCase_def lowerChar_def)

text \<open>
  C4, as the code has it. A registration whose user name or e-mail address is taken, in
  any case variant, fails and leaves the model unchanged. When the input passes the
  checks that precede the collision checks (the four required properties non-empty, a
  user name of at least 3 characters, all of them letters, digits or underscores), the
  error is \<^verbatim>\<open>Username already exists\<close> if the user name is taken, and
  \<^verbatim>\<open>Email address already registered\<close> if only the e-mail address is; the two errors
  differ. An input that fails an earlier check gets the error of the first check it
  fails, whatever collides: that of the required properties, else that of the user
  name's length, else that of its characters.
\<close>

theorem registerUser_collision_fails:
  "((r_username d = Some n \<and> usernameTaken (users m) n) \<or>
    (r_email d = Some e \<and> emailTaken (users m) e) \<longrightarrow>
      (\<exists>err. registerUser now d m = (Inl err, m))) \<and>
   (passesEarlierChecks d \<and> r_username d = Some n \<and> usernameTaken (users m) n \<longrightarrow>
      registerUser now d m = (Inl (Error ''Username already exists''), m)) \<and>
   (passesEarlierChecks d \<and> r_username d = Some n \<and> \<not> usernameTaken (users m) n \<and>
    r_email d = Some e \<and> emailTaken (users m) e \<longrightarrow>
      registerUser now d m = (Inl (Error ''Email address already registered''), m)) \<and>
   (falsy (r_username d) \<or> falsy (r_password d) \<or> falsy (r_email d) \<or> falsy (r_fullName d) \<longrightarrow>
      registerUser now d m =
        (Inl (Error ''Username, password, email, and full name are required''), m)) \<and>
   (\<not> falsy (r_username d) \<and> \<not> falsy (r_password d) \<and> \<not> falsy (r_email d) \<and>
    \<not> falsy (r_fullName d) \<and> length (the (r_username d)) < 3 \<longrightarrow>
      registerUser now d m = (Inl (Error ''Username must be at least 3 characters long''), m)) \<and>
   (\<not> falsy (r_username d) \<and> \<not> falsy (r_password d) \<and> \<not> falsy (r_email d) \<and>
    \<not> falsy (r_fullName d) \<and> 3 \<le> length (the (r_username d)) \<and>
    \<not> validUsernameChars (the (r_username d)) \<longrightarrow>
      registerUser now d m =
        (Inl (Error ''Username can only contain letters, numbers, and underscores''), m)) \<and>
   Error ''Username already exists'' \<noteq> Error ''Email address already registered''"
proof -
  have a: "(r_username d = Some n \<and> usernameTaken (users m) n) \<or>
    (r_email d = Some e \<and> emailTaken (users m) e) \<longrightarrow>
      (\<exists>err. registerUser now d m = (Inl err, m))"
    by (auto simp: registerUser_def)
  have b: "passesEarlierChecks d \<and> r_username d = Some n \<and> usernameTaken (users m) n \<longrightarrow>
      registerUser now d m = (Inl (Error ''Username already exists''), m)"
    by (auto simp: registerUser_def passesEarlierChecks_def)
  have c: "passesEarlierChecks d \<and> r_username d = Some n \<and> \<not> usernameTaken (users m) n \<and>
    r_email d = Some e \<and> emailTaken (users m) e \<longrightarrow>
      registerUser now d m = (Inl (Error ''Email address already registered''), m)"
    by (auto simp: registerUser_def passesEarlierChecks_def)
  have e1: "falsy (r_username d) \<or> falsy (r_password d) \<or> falsy (r_email d) \<or>
      falsy (r_fullName d) \<longrightarrow>
      registerUser now d m =
        (Inl (Error ''Username, password, email, and full name are required''), m)"
    by (auto simp: registerUser_def)
  have e2: "\<not> falsy (r_username d) \<and> \<not> falsy (r_password d) \<and> \<not> falsy (r_email d) \<and>
    \<not> falsy (r_fullName d) \<and> length (the (r_username d)) < 3 \<longrightarrow>
      registerUser now d m = (Inl (Error ''Username must be at least 3 characters long''), m)"
    by (auto simp: registerUser_def)
  have e3: "\<not> falsy (r_username d) \<and> \<not> falsy (r_password d) \<and> \<not> falsy (r_email d) \<and>
    \<not> falsy (r_fullName d) \<and> 3 \<le> length (the (r_username d)) \<and>
    \<not> validUsernameChars (the (r_username d)) \<longrightarrow>
      registerUser now d m =
        (Inl (Error ''Username can only contain letters, numbers, and underscores''), m)"
    by (auto simp: registerUser_def)
  have d: "Error ''Username already exists'' \<noteq> Error ''Email address already registered''"
    by simp
  show ?thesis by (intro conjI a b c e1 e2 e3 d)
qed

theorem registerUser_collision_fails_witness:
  "passesEarlierChecks
     \<lparr>r_username = Some ''ADMIN'', r_password = Some ''secret1'', r_email = Some ''a@x.com'',
       r_fullName = Some ''Alice A'', r_phone = None\<rparr> \<and>
   usernameTaken (users (AuthModel ''t1'' ''t2'' None None)) ''ADMIN'' \<and>
   registerUser ''t3''
     \<lparr>r_username = Some ''ADMIN'', r_password = Some ''secret1'', r_email = Some ''a@x.com'',
       r_fullName = Some ''Alice A'', r_phone = None\<rparr>
     (AuthModel ''t1'' ''t2'' None None) =
     (Inl (Error ''Username already exists''), AuthModel ''t1'' ''t2'' None None) \<and>
   passesEarlierChecks
     \<lparr>r_username = Some ''alice123'', r_password = Some ''secret1'',
       r_email = Some ''User@EventManager.com'', r_fullName = Some ''Alice A'', r_phone = None\<rparr> \<and>
   \<not> usernameTaken (users (AuthModel ''t1'' ''t2'' None None)) ''alice123'' \<and>
   emailTaken (users (AuthModel ''t1'' ''t2'' None None)) ''User@EventManager.com'' \<and>
   registerUser ''t3''
     \<lparr>r_username = Some ''alice123'', r_password = Some ''secret1'',
       r_email = Some ''User@EventManager.com'', r_fullName = Some ''Alice A'', r_phone = None\<rparr>
     (AuthModel ''t1'' ''t2'' None None) =
     (Inl (Error ''Email address already registered''), AuthModel ''t1'' ''t2'' None None) \<and>
   falsy (r_password
     \<lparr>r_username = Some ''Admin'', r_password = Some [], r_email = Some ''new@example.com'',
       r_fullName = Some ''New Admin'', r_phone = None\<rparr>) \<and>
   registerUser ''t3''
     \<lparr>r_username = Some ''Admin'', r_password = Some [], r_email = Some ''new@example.com'',
       r_fullName = Some ''New Admin'', r_phone = None\<rparr>
     (AuthModel ''t1'' ''t2'' None None) =
     (Inl (Error ''Username, password, email, and full name are required''),
      AuthModel ''t1'' ''t2'' None None)"
proof -
  let ?m = "AuthModel ''t1'' ''t2'' None None"
  let ?d1 = "\<lparr>r_username = Some ''ADMIN'', r_password = Some ''secret1'', r_email = Some ''a@x.com'',
       r_fullName = Some ''Alice A'', r_phone = None\<rparr>"
  let ?d2 = "\<lparr>r_username = Some ''alice123'', r_password = Some ''secret1'',
       r_email = Some ''User@EventManager.com'', r_fullName = Some ''Alice A'', r_phone = None\<rparr>"
  let ?d3 = "\<lparr>r_username = Some ''Admin'', r_password = Some [], r_email = Some ''new@example.com'',
       r_fullName = Some ''New Admin'', r_phone = None\<rparr>"
  have u: "users ?m = defaultUsers ''t1'' ''t2''"
    by (simp add: AuthModel_def loadUsers_def)
  have p1: "passesEarlierChecks ?d1"
    by (simp add: passesEarlierChecks_def falsy_def validUsernameChars_def)
  have p2: "passesEarlierChecks ?d2"
    by (simp add: passesEarlierChecks_def falsy_def validUsernameChars_def)
  have t1: "usernameTaken (users ?m) ''ADMIN''"
    unfolding u by (simp add: usernameTaken_def defaultUsers_def toLowerCase_def lowerChar_def)
  have t2: "\<not> usernameTaken (users ?m) ''alice123''"
    unfolding u by (simp add: usernameTaken_def defaultUsers_def toLowerCase_def lowerChar_def)
  have t3: "emailTaken (users ?m) ''User@EventManager.com''"
    unfolding u by (simp add: emailTaken_def defaultUsers_def toLowerCase_def lowerChar_def)
  have n1: "r_username ?d1 = Some ''ADMIN''" by simp
  have n2: "r_username ?d2 = Some ''alice123''" by simp
  have e2: "r_email ?d2 = Some ''User@EventManager.com''" by simp
  have f3: "falsy (r_password ?d3)" by (simp add: falsy_def)
  note w1 = registerUser_collision_fails [of ?d1 "''ADMIN''" ?m "''a@x.com''" "''t3''"]
  note w2 = registerUser_collision_fails [of ?d2 "''alice123''" ?m "''User@EventManager.com''" "''t3''"]
  note w3 = registerUser_collision_fails [of ?d3 "''Admin''" ?m "''new@example.com''" "''t3''"]
  have r1: "registerUser ''t3'' ?d1 ?m = (Inl (Error ''Username already exists''), ?m)"
    by (rule mp [OF conjunct1 [OF conjunct2 [OF w1]] conjI [OF p1 conjI [OF n1 t1]]])
  have r2: "registerUser ''t3'' ?d2 ?m = (Inl (Error ''Email address already registered''), ?m)"
    by (rule mp [OF conjunct1 [OF conjunct2 [OF conjunct2 [OF w2]]]
          conjI [OF p2 conjI [OF n2 conjI [OF t2 conjI [OF e2 t3]]]]])
  have r3: "registerUser ''t3'' ?d3 ?m =
      (Inl (Error ''Username, password, email, and full name are required''), ?m)"
    by (rule mp [OF conjunct1 [OF conjunct2 [OF conjunct2 [OF conjunct2 [OF w3]]]]
          disjI2 [OF disjI1 [OF f3]]])
  show ?thesis by (intro conjI p1 t1 r1 p2 t2 t3 r2 f3 r3)
qed

text \<open>
  C4, as stated, fails: a taken user name with an empty password is answered by the
  error of the required properties, and a taken e-mail address with a user name of two
  characters by the error of the user name's length; neither names the collision.
\<close>

theorem registerUser_collision_hidden_by_earlier_check:
  "usernameTaken (users (AuthModel ''t1'' ''t2'' None None)) ''Admin'' \<and>
   fst (registerUser ''t3''
     \<lparr>r_username = Some ''Admin'', r_password = Some [], r_email = Some ''new@example.com'',
       r_fullName = Some ''New Admin'', r_phone = None\<rparr>
     (AuthModel ''t1'' ''t2'' None None)) =
     Inl (Error ''Username, password, email, and full name are required'') \<and>
   emailTaken (users (AuthModel ''t1'' ''t2'' None None)) ''USER@eventmanager.com'' \<and>
   fst (registerUser ''t3''
     \<lparr>r_username = Some ''al'', r_password = Some ''secret1'', r_email = Some ''USER@eventmanager.com'',
       r_fullName = Some ''Al'', r_phone = None\<rparr>
     (AuthModel ''t1'' ''t2'' None None)) =
     Inl (Error ''Username must be at least 3 characters long'')"
  by (simp add: registerUser_def usernameTaken_def emailTaken_def AuthModel_def loadUsers_def
      defaultUsers_def falsy_def toLowerCase_def lowerChar_def)

section \<open>AuthModel: profile update\<close>

lemma applyPatch_frame:
  "u_id (applyPatch d u) = u_id u \<and> u_username (applyPatch d u) = u_username u \<and>
   u_password (applyPatch d u) = u_password u \<and> u_role (applyPatch d u) = u_role u \<and>
   u_isActive (applyPatch d u) = u_isActive u \<and> u_createdAt (applyPatch d u) = u_createdAt u \<and>
   u_lastLogin (applyPatch d u) = u_lastLogin u"
  by (simp add: applyPatch_def Let_def split: option.splits)

text \<open>
  What holds of every successful \<^verbatim>\<open>updateUserProfile\<close>: one account is replaced, its
  \<^verbatim>\<open>id\<close>, \<^verbatim>\<open>username\<close>, \<^verbatim>\<open>password\<close>, \<^verbatim>\<open>role\<close>, \<^verbatim>\<open>isActive\<close> and \<^verbatim>\<open>createdAt\<close> are kept and
  \<^verbatim>\<open>updatedAt\<close> is stamped; the session is refreshed when its \<^verbatim>\<open>id\<close> is strictly equal to
  the \<^verbatim>\<open>userId\<close> argument.
\<close>

lemma updateUserProfile_frame:
  assumes "updateUserProfile now userId d m = (Inr prof, m')"
  shows "\<exists>i<length (users m).
           Some (u_id (users m ! i)) = parseInt userId \<and>
           users m' = (users m)[i := (applyPatch d (users m ! i))\<lparr>u_updatedAt := Some now\<rparr>] \<and>
           u_id (users m' ! i) = u_id (users m ! i) \<and>
           u_username (users m' ! i) = u_username (users m ! i) \<and>
           u_password (users m' ! i) = u_password (users m ! i) \<and>
           u_role (users m' ! i) = u_role (users m ! i) \<and>
           u_isActive (users m' ! i) = u_isActive (users m ! i) \<and>
           u_createdAt (users m' ! i) = u_createdAt (users m ! i) \<and>
           u_updatedAt (users m' ! i) = Some now \<and>
           (\<forall>cu. currentUser m = Some cu \<and> cu ''id'' = Some userId \<longrightarrow>
              currentUser m' = Some (cu ++ withoutPassword (accountObj (users m' ! i))))"
proof -
  from assms obtain i where i: "findIndex (\<lambda>u. Some (u_id u) = parseInt userId) (users m) = Some i"
    by (cases "findIndex (\<lambda>u. Some (u_id u) = parseInt userId) (users m)")
      (auto simp: updateUserProfile_def)
  from findIndex_Some [OF i]
  have bound: "i < length (users m)" and hit: "Some (u_id (users m ! i)) = parseInt userId"
    by auto
  let ?u = "(applyPatch d (users m ! i))\<lparr>u_updatedAt := Some now\<rparr>"
  let ?m1 = "saveUsers (m\<lparr>users := (users m)[i := ?u]\<rparr>)"
  have m': "m' = (case currentUser ?m1 of
                    None \<Rightarrow> ?m1
                  | Some cu \<Rightarrow>
                      if cu ''id'' = Some userId
                      then saveCurrentUser (cu ++ withoutPassword (accountObj ?u)) ?m1
                      else ?m1)"
    using assms i by (simp add: updateUserProfile_def Let_def split: if_splits)
  have us: "users m' = (users m)[i := ?u]"
    unfolding m' by (simp add: saveUsers_def saveCurrentUser_def split: option.splits)
  have at: "users m' ! i = ?u"
    using us bound by simp
  have sess: "\<forall>cu. currentUser m = Some cu \<and> cu ''id'' = Some userId \<longrightarrow>
              currentUser m' = Some (cu ++ withoutPassword (accountObj (users m' ! i)))"
    unfolding at unfolding m' by (simp add: saveUsers_def saveCurrentUser_def)
  show ?thesis
    using bound hit us sess applyPatch_frame [of d "users m ! i"]
    by (intro exI [where x = i]) (simp add: at)
qed

text \<open>
  C8. The account is looked up by \<^verbatim>\<open>parseInt(userId)\<close> but the session is compared with
  \<^verbatim>\<open>userId\<close> itself. After the administrator has logged in (session id the number 1),
  updating the profile under the id \<^verbatim>\<open>"1"\<close> changes the account and leaves the session
  with the old name; under the id \<^verbatim>\<open>1\<close> the session gets the new name.
\<close>

theorem updateUserProfile_string_id_leaves_session_stale:
  "the (currentUser (snd (authenticate ''t3'' ''t4'' ''admin'' ''password''
      (AuthModel ''t1'' ''t2'' None None)))) ''id'' = Some (JNum 1) \<and>
   map u_fullName (users (snd (updateUserProfile ''t5'' (JStr ''1'')
      \<lparr>p_fullName = Some ''Root'', p_email = None, p_phone = None\<rparr>
      (snd (authenticate ''t3'' ''t4'' ''admin'' ''password'' (AuthModel ''t1'' ''t2'' None None)))))) =
     [''Root'', ''Demo User''] \<and>
   the (currentUser (snd (updateUserProfile ''t5'' (JStr ''1'')
      \<lparr>p_fullName = Some ''Root'', p_email = None, p_phone = None\<rparr>
      (snd (authenticate ''t3'' ''t4'' ''admin'' ''password'' (AuthModel ''t1'' ''t2'' None None)))))) ''fullName'' =
     Some (JStr ''System Administrator'') \<and>
   the (currentUser (snd (updateUserProfile ''t5'' (JNum 1)
      \<lparr>p_fullName = Some ''Root'', p_email = None, p_phone = None\<rparr>
      (snd (authenticate ''t3'' ''t4'' ''admin'' ''password'' (AuthModel ''t1'' ''t2'' None None)))))) ''fullName'' =
     Some (JStr ''Root'')"
  by (simp add: updateUserProfile_def applyPatch_def accountObj_def withoutPassword_def
        authenticate_def AuthModel_def loadUsers_def defaultUsers_def credentialsMatch_def
        toLowerCase_def lowerChar_def trim_def isWhiteSpace_def Let_def saveUsers_def saveCurrentUser_def
        loadCurrentUser_def getNextUserId_def jsInc_def two53_def falsy_def
        parseIntStr_def isDigitIn_def digitVal_def digitsValue_def roundNat_def shiftCount.simps)

end
